theory Spec2Isabelle
  imports Complex_Main
begin

section \<open>TabletopObjectRecognizer: data model\<close>

text \<open>
  A shallow embedding of \<^verbatim>\<open>tabletop_object_detector.h\<close>. Numbers of type
  \<^verbatim>\<open>double\<close> and \<^verbatim>\<open>float\<close> are idealised as reals (rounding, and the
  narrowing of the confidence to \<^verbatim>\<open>float\<close>, are outside the embedding).
  Values of type \<^verbatim>\<open>size_t\<close> are natural numbers; the cast \<^verbatim>\<open>(int) i\<close> and the
  comparison of its result with a \<^verbatim>\<open>size_t\<close> are written out for a 32-bit
  \<^verbatim>\<open>int\<close> and a 64-bit \<^verbatim>\<open>size_t\<close>.
\<close>

type_synonym Vec3f = "real \<times> real \<times> real"

record Point =
  pos_x :: real
  pos_y :: real
  pos_z :: real

record Quaternion =
  quat_x :: real
  quat_y :: real
  quat_z :: real
  quat_w :: real

record Pose =
  position :: Point
  orientation :: Quaternion

text \<open>
  \<^verbatim>\<open>ModelFitInfo\<close> is declared in a header that is not part of the recognizer; the
  recognizer reads it through \<^verbatim>\<open>getModelId()\<close>, \<^verbatim>\<open>getPose()\<close> and
  \<^verbatim>\<open>getScore()\<close> only.
\<close>

record ModelFitInfo =
  getModelId :: int
  getPose :: Pose
  getScore :: real

text \<open>
  The fields of \<^verbatim>\<open>TabletopResult\<close> and the member
  \<^verbatim>\<open>fit_merge_threshold_\<close> are written without the trailing underscore of the
  source, which is not a legal name here.
\<close>

record TabletopResult =
  pose :: Pose
  confidence :: real
  object_id :: int
  cloud :: "Vec3f list"
  cloud_index :: nat

text \<open>
  What a call can raise: an exception thrown by the fitter (rethrown by
  \<^verbatim>\<open>future::get\<close>, or thrown directly by the refit), and the
  \<^verbatim>\<open>std::out_of_range\<close> of \<^verbatim>\<open>vector::at\<close>.
\<close>

datatype 'e exn = Fitter_error 'e | Out_of_range

text \<open>
  The fitter \<^verbatim>\<open>ExhaustiveFitDetector::fitBestModels(cloud, numResults, search,
  min_object_score)\<close> and the construction of a \<^verbatim>\<open>cv::flann::Index\<close> over a
  cluster are external; they are parameters of the model. The set of registered models
  does not change during a call, so it is part of the fitter. An index is a value made
  from the points of a cluster; that the \<^verbatim>\<open>cv::Mat\<close> it is built over shares the
  storage of the cluster's vector is outside the embedding.
\<close>

type_synonym ('idx, 'e) fitter =
  "Vec3f list \<Rightarrow> int \<Rightarrow> 'idx \<Rightarrow> real \<Rightarrow> 'e + ModelFitInfo list"

section \<open>Helpers of the class\<close>

definition getConfidence :: "real \<Rightarrow> real" where
  "getConfidence score = 1 - (1 - score) * (1 - score)"

definition fit_merge_threshold :: real where
  "fit_merge_threshold = 0.02"

definition fitDistance :: "ModelFitInfo \<Rightarrow> ModelFitInfo \<Rightarrow> real" where
  "fitDistance m1 m2 =
     (let dx = pos_x (position (getPose m1)) - pos_x (position (getPose m2));
          dy = pos_y (position (getPose m1)) - pos_y (position (getPose m2));
          d = dx * dx + dy * dy
      in sqrt d)"

definition num_models :: int where
  "num_models = 1"

text \<open>\<^verbatim>\<open>(int) i\<close> for a \<^verbatim>\<open>size_t i\<close>: the low 32 bits, read as a signed number.\<close>

definition int_cast :: "nat \<Rightarrow> int" where
  "int_cast i = (let r = int i mod 2 ^ 32 in if r < 2 ^ 31 then r else r - 2 ^ 32)"

text \<open>
  \<^verbatim>\<open>cluster_model_indices[k] != (int) i\<close>: the \<^verbatim>\<open>int\<close> is converted to
  \<^verbatim>\<open>size_t\<close> (modulo \<open>2^64\<close>) before the comparison.
\<close>

definition index_differs :: "nat \<Rightarrow> nat \<Rightarrow> bool" where
  "index_differs m i = (m \<noteq> nat (int_cast i mod 2 ^ 64))"

text \<open>\<^verbatim>\<open>vector::at\<close>: a checked read; \<open>None\<close> is \<^verbatim>\<open>std::out_of_range\<close> thrown.\<close>

definition vec_at :: "'a list \<Rightarrow> nat \<Rightarrow> 'a option" where
  "vec_at xs i = (if i < length xs then Some (xs ! i) else None)"

section \<open>Fit dispatch and join\<close>

text \<open>
  The first loop builds \<^verbatim>\<open>search[i]\<close> from \<^verbatim>\<open>clusters[i]\<close> and starts one
  asynchronous fit per cluster; the second loop takes the results in index order, so the
  exception of the first failed task in index order is the one that leaves the call.
  The fitter is a function of its arguments, so the order in which the tasks run does
  not enter.
\<close>

definition build_search :: "(Vec3f list \<Rightarrow> 'idx) \<Rightarrow> Vec3f list list \<Rightarrow> 'idx list" where
  "build_search build cs = map (\<lambda>i. build (cs ! i)) [0..<length cs]"

definition future_results ::
  "('idx, 'e) fitter \<Rightarrow> 'idx list \<Rightarrow> Vec3f list list \<Rightarrow> real \<Rightarrow> ('e + ModelFitInfo list) list" where
  "future_results fit search cs confidence_cutoff =
     map (\<lambda>i. fit (cs ! i) (max 1 num_models) (search ! i) confidence_cutoff) [0..<length cs]"

fun get_all :: "('e + 'a) list \<Rightarrow> 'e exn + 'a list" where
  "get_all [] = Inr []"
| "get_all (f # fs) =
     (case f of
        Inl e \<Rightarrow> Inl (Fitter_error e)
      | Inr r \<Rightarrow> (case get_all fs of Inl e \<Rightarrow> Inl e | Inr rs \<Rightarrow> Inr (r # rs)))"

section \<open>The merge loop\<close>

text \<open>
  The body of the inner \<^verbatim>\<open>for\<close> loop at index \<open>j\<close>: \<open>Some True\<close> is the
  \<^verbatim>\<open>break\<close>, \<open>Some False\<close> goes on to \<open>j + 1\<close>, \<open>None\<close> is
  \<^verbatim>\<open>std::out_of_range\<close> thrown by one of the checked reads.
\<close>

definition qualifies ::
  "ModelFitInfo list list \<Rightarrow> nat list \<Rightarrow> nat \<Rightarrow> nat \<Rightarrow> bool option" where
  "qualifies fs rs i j =
     (if index_differs (rs ! j) j then Some False
      else (case vec_at fs j of
        None \<Rightarrow> None
      | Some fj \<Rightarrow>
          (if fj = [] then Some False
           else (case vec_at fs i of
             None \<Rightarrow> None
           | Some fi \<Rightarrow> (case vec_at fi 0 of
               None \<Rightarrow> None
             | Some m1 \<Rightarrow> (case vec_at fj 0 of
                 None \<Rightarrow> None
               | Some m2 \<Rightarrow> Some (fitDistance m1 m2 < fit_merge_threshold)))))))"

text \<open>The inner loop from \<open>j\<close>; its value is \<open>j\<close> when the loop is left.\<close>

function for_j ::
  "ModelFitInfo list list \<Rightarrow> nat list \<Rightarrow> nat \<Rightarrow> nat \<Rightarrow> nat \<Rightarrow> nat option" where
  "for_j fs rs n i j =
     (if j < n then
        (case qualifies fs rs i j of
           None \<Rightarrow> None
         | Some b \<Rightarrow> if b then Some j else for_j fs rs n i (j + 1))
      else Some j)"
  by pat_completeness auto
termination
  by (relation "measure (\<lambda>(fs, rs, n, i, j). n - j)") auto

declare for_j.simps [simp del]

record merge_state =
  outer_i :: nat
  clusters :: "Vec3f list list"
  raw_fit_results :: "ModelFitInfo list list"
  cluster_model_indices :: "nat list"

text \<open>
  One pass through the body of the \<^verbatim>\<open>while\<close> loop. \<open>Exit\<close>: the loop condition
  is false. \<open>Advance\<close>: \<^verbatim>\<open>i++\<close>. \<open>Merged j\<close>: cluster \<open>j\<close> was merged into
  cluster \<open>i\<close> and \<open>i\<close> refitted. \<open>Throw\<close>: an exception leaves the loop; the
  clusters are the caller's, so their contents at that moment are kept.

  In the merge branch, \<^verbatim>\<open>raw_fit_results.at(j)\<close> and \<^verbatim>\<open>raw_fit_results.at(i)\<close>
  have both been read without exception earlier in the same pass, so the two writes
  through \<^verbatim>\<open>at\<close> are list updates.
\<close>

datatype 'e step = Exit | Advance merge_state | Merged nat merge_state
  | Throw "'e exn" "Vec3f list list"

definition merge_step ::
  "('idx, 'e) fitter \<Rightarrow> 'idx list \<Rightarrow> real \<Rightarrow> merge_state \<Rightarrow> 'e step" where
  "merge_step fit search confidence_cutoff st =
     (let i = outer_i st; cs = clusters st; fs = raw_fit_results st;
          rs = cluster_model_indices st
      in if \<not> i < length cs then Exit
         else if index_differs (rs ! i) i then Advance (st\<lparr>outer_i := i + 1\<rparr>)
         else (case vec_at fs i of
           None \<Rightarrow> Throw Out_of_range cs
         | Some fi \<Rightarrow>
             (if fi = [] then Advance (st\<lparr>outer_i := i + 1\<rparr>)
              else (case for_j fs rs (length cs) i (i + 1) of
                None \<Rightarrow> Throw Out_of_range cs
              | Some j \<Rightarrow>
                  (if j < length cs then
                     (let cs' = cs[i := cs ! i @ cs ! j];
                          fs' = fs[j := []];
                          rs' = rs[j := i]
                      in (case fit (cs' ! i) (max 1 num_models) (search ! i) confidence_cutoff of
                            Inl e \<Rightarrow> Throw (Fitter_error e) cs'
                          | Inr new_fit \<Rightarrow>
                              Merged j \<lparr>outer_i = i, clusters = cs',
                                raw_fit_results = fs'[i := new_fit],
                                cluster_model_indices = rs'\<rparr>))
                   else Advance (st\<lparr>outer_i := i + 1\<rparr>))))))"

text \<open>Facts about the inner loop and one pass of the outer loop, used for termination.\<close>

lemma qualifies_True:
  "qualifies fs rs i j = Some True \<Longrightarrow>
     \<not> index_differs (rs ! j) j \<and> j < length fs \<and> fs ! j \<noteq> [] \<and> i < length fs \<and> fs ! i \<noteq> []
     \<and> fitDistance (fs ! i ! 0) (fs ! j ! 0) < fit_merge_threshold"
  by (auto simp: qualifies_def vec_at_def split: if_splits option.splits)

lemma for_j_found:
  "for_j fs rs n i j0 = Some j \<Longrightarrow> j < n \<Longrightarrow>
     j0 \<le> j \<and> qualifies fs rs i j = Some True
     \<and> (\<forall>k. j0 \<le> k \<and> k < j \<longrightarrow> qualifies fs rs i k = Some False)"
proof (induction fs rs n i j0 rule: for_j.induct)
  case (1 fs rs n i j0)
  show ?case
  proof (cases "j0 < n")
    case False
    with "1.prems" show ?thesis by (simp add: for_j.simps)
  next
    case True
    show ?thesis
    proof (cases "qualifies fs rs i j0")
      case None
      with True "1.prems" show ?thesis by (simp add: for_j.simps)
    next
      case (Some b)
      show ?thesis
      proof (cases b)
        case True
        with Some \<open>j0 < n\<close> "1.prems" show ?thesis by (auto simp: for_j.simps)
      next
        case False
        with Some \<open>j0 < n\<close> "1.prems" have r: "for_j fs rs n i (j0 + 1) = Some j"
          by (simp add: for_j.simps)
        from "1.IH"[OF \<open>j0 < n\<close> Some False r "1.prems"(2)]
        have ih: "j0 + 1 \<le> j" "qualifies fs rs i j = Some True"
          "\<forall>k. j0 + 1 \<le> k \<and> k < j \<longrightarrow> qualifies fs rs i k = Some False" by auto
        have "\<And>k. j0 \<le> k \<Longrightarrow> k < j \<Longrightarrow> qualifies fs rs i k = Some False"
        proof -
          fix k assume "j0 \<le> k" "k < j"
          show "qualifies fs rs i k = Some False"
          proof (cases "k = j0")
            case True with Some False show ?thesis by simp
          next
            case False with \<open>j0 \<le> k\<close> \<open>k < j\<close> ih(3) show ?thesis by simp
          qed
        qed
        with ih show ?thesis by auto
      qed
    qed
  qed
qed

lemma filter_update_less:
  "k < length xs \<Longrightarrow> P (xs ! k) \<Longrightarrow> \<not> P y \<Longrightarrow>
     length (filter P (xs[k := y])) < length (filter P xs)"
proof (induction xs arbitrary: k)
  case Nil
  then show ?case by simp
next
  case (Cons x xs)
  then show ?case by (cases k) auto
qed

lemma merge_step_Advance:
  "merge_step fit search cutoff st = Advance st' \<Longrightarrow>
     outer_i st < length (clusters st) \<and> st' = st\<lparr>outer_i := outer_i st + 1\<rparr>"
  by (auto simp: merge_step_def Let_def split: if_splits option.splits sum.splits)

lemma merge_step_Merged:
  "merge_step fit search cutoff st = Merged j st' \<Longrightarrow>
     outer_i st < length (clusters st) \<and>
     \<not> index_differs (cluster_model_indices st ! outer_i st) (outer_i st) \<and>
     outer_i st < length (raw_fit_results st) \<and>
     raw_fit_results st ! outer_i st \<noteq> [] \<and>
     for_j (raw_fit_results st) (cluster_model_indices st) (length (clusters st))
       (outer_i st) (outer_i st + 1) = Some j \<and>
     j < length (clusters st) \<and>
     (\<exists>new_fit. fit (clusters st ! outer_i st @ clusters st ! j) (max 1 num_models)
          (search ! outer_i st) cutoff = Inr new_fit \<and>
        st' = \<lparr>outer_i = outer_i st,
               clusters = (clusters st)[outer_i st := clusters st ! outer_i st @ clusters st ! j],
               raw_fit_results = (raw_fit_results st)[j := [], outer_i st := new_fit],
               cluster_model_indices = (cluster_model_indices st)[j := outer_i st]\<rparr>)"
  by (auto simp: merge_step_def Let_def vec_at_def split: if_splits option.splits sum.splits)

text \<open>
  The loop's variant: the distance of \<open>i\<close> to the end, plus the number of non-empty
  fit results after \<open>i\<close>. \<^verbatim>\<open>i++\<close> lowers the first part, a merge clears one fit
  result after \<open>i\<close>.
\<close>

definition merge_measure :: "merge_state \<Rightarrow> nat" where
  "merge_measure st =
     (length (clusters st) - outer_i st)
     + length (filter (\<lambda>l. l \<noteq> []) (drop (Suc (outer_i st)) (raw_fit_results st)))"

lemma merge_measure_Advance:
  assumes "merge_step fit search cutoff st = Advance st'"
  shows "merge_measure st' < merge_measure st"
proof -
  from merge_step_Advance[OF assms] have i: "outer_i st < length (clusters st)"
    and st': "st' = st\<lparr>outer_i := outer_i st + 1\<rparr>" by auto
  have "drop (Suc (Suc (outer_i st))) (raw_fit_results st)
      = tl (drop (Suc (outer_i st)) (raw_fit_results st))"
    by (simp add: drop_Suc tl_drop)
  moreover have "\<And>xs::ModelFitInfo list list.
      length (filter (\<lambda>l. l \<noteq> []) (tl xs)) \<le> length (filter (\<lambda>l. l \<noteq> []) xs)"
    by (case_tac xs) auto
  ultimately have
    "length (filter (\<lambda>l. l \<noteq> []) (drop (Suc (Suc (outer_i st))) (raw_fit_results st)))
      \<le> length (filter (\<lambda>l. l \<noteq> []) (drop (Suc (outer_i st)) (raw_fit_results st)))"
    by simp
  with i st' show ?thesis by (simp add: merge_measure_def)
qed

lemma merge_measure_Merged:
  assumes "merge_step fit search cutoff st = Merged j st'"
  shows "merge_measure st' < merge_measure st"
proof -
  let ?i = "outer_i st" and ?fs = "raw_fit_results st"
  from merge_step_Merged[OF assms] obtain new_fit where
    f: "for_j ?fs (cluster_model_indices st) (length (clusters st)) ?i (?i + 1) = Some j"
    and j: "j < length (clusters st)"
    and st': "st' = \<lparr>outer_i = ?i,
               clusters = (clusters st)[?i := clusters st ! ?i @ clusters st ! j],
               raw_fit_results = ?fs[j := [], ?i := new_fit],
               cluster_model_indices = (cluster_model_indices st)[j := ?i]\<rparr>" by blast
  from for_j_found[OF f j] qualifies_True
  have ij: "?i + 1 \<le> j" and jl: "j < length ?fs" and ne: "?fs ! j \<noteq> []"
    by blast+
  have "drop (Suc ?i) (?fs[j := [], ?i := new_fit]) = (drop (Suc ?i) ?fs)[j - Suc ?i := []]"
    using ij by (simp add: drop_update_swap)
  moreover have "length (filter (\<lambda>l. l \<noteq> []) ((drop (Suc ?i) ?fs)[j - Suc ?i := []]))
      < length (filter (\<lambda>l. l \<noteq> []) (drop (Suc ?i) ?fs))"
    using ij jl ne by (intro filter_update_less) auto
  ultimately show ?thesis using st' by (simp add: merge_measure_def)
qed

text \<open>
  The \<^verbatim>\<open>while\<close> loop. It returns the clusters (the caller's vector) and either the
  exception that left the loop or the final fit results and cluster indices.
\<close>

function merge_loop ::
  "('idx, 'e) fitter \<Rightarrow> 'idx list \<Rightarrow> real \<Rightarrow> merge_state
     \<Rightarrow> Vec3f list list \<times> ('e exn + ModelFitInfo list list \<times> nat list)" where
  "merge_loop fit search confidence_cutoff st =
     (case merge_step fit search confidence_cutoff st of
        Exit \<Rightarrow> (clusters st, Inr (raw_fit_results st, cluster_model_indices st))
      | Advance st' \<Rightarrow> merge_loop fit search confidence_cutoff st'
      | Merged j st' \<Rightarrow> merge_loop fit search confidence_cutoff st'
      | Throw e cs \<Rightarrow> (cs, Inl e))"
  by pat_completeness auto
termination
  by (relation "measure (\<lambda>(fit, search, cutoff, st). merge_measure st)")
     (auto simp: merge_measure_Advance merge_measure_Merged)

declare merge_loop.simps [simp del]

section \<open>Assembling the results\<close>

text \<open>The last loop, from index \<open>i\<close>, appending to \<open>results\<close>.\<close>

function assemble ::
  "Vec3f list list \<Rightarrow> ModelFitInfo list list \<Rightarrow> nat list \<Rightarrow> real \<Rightarrow> nat
     \<Rightarrow> TabletopResult list \<Rightarrow> TabletopResult list" where
  "assemble cs fs rs confidence_cutoff i results =
     (if i < length rs then
        (if index_differs (rs ! i) i \<or> fs ! i = [] then
           assemble cs fs rs confidence_cutoff (i + 1) results
         else
           (let conf = getConfidence (getScore (fs ! i ! 0)) in
            if conf < confidence_cutoff then
              assemble cs fs rs confidence_cutoff (i + 1) results
            else
              assemble cs fs rs confidence_cutoff (i + 1)
                (results @ [\<lparr>pose = getPose (fs ! i ! 0), confidence = conf,
                             object_id = getModelId (fs ! i ! 0), cloud = cs ! i,
                             cloud_index = i\<rparr>])))
      else results)"
  by pat_completeness auto
termination
  by (relation "measure (\<lambda>(cs, fs, rs, cutoff, i, results). length rs - i)") auto

declare assemble.simps [simp del]

section \<open>objectDetection\<close>

text \<open>
  The fitting and merging part of \<^verbatim>\<open>objectDetection\<close>: the clusters as the caller
  sees them afterwards, and either the exception raised or the vectors
  \<^verbatim>\<open>raw_fit_results\<close> and \<^verbatim>\<open>cluster_model_indices\<close> as the last loop finds them.
\<close>

definition fit_and_merge ::
  "('idx, 'e) fitter \<Rightarrow> (Vec3f list \<Rightarrow> 'idx) \<Rightarrow> Vec3f list list \<Rightarrow> real \<Rightarrow> bool
     \<Rightarrow> Vec3f list list \<times> ('e exn + ModelFitInfo list list \<times> nat list)" where
  "fit_and_merge fit build cs confidence_cutoff perform_fit_merge =
     (let search = build_search build cs in
      case get_all (future_results fit search cs confidence_cutoff) of
        Inl e \<Rightarrow> (cs, Inl e)
      | Inr raw \<Rightarrow>
          if perform_fit_merge then
            merge_loop fit search confidence_cutoff
              \<lparr>outer_i = 0, clusters = cs, raw_fit_results = raw,
               cluster_model_indices = [0..<length cs]\<rparr>
          else (cs, Inr (raw, [0..<length cs])))"

text \<open>
  What the caller has after the call: the two vectors passed by reference, and the
  exception if one left the call.
\<close>

record 'e detection =
  clusters_out :: "Vec3f list list"
  results_out :: "TabletopResult list"
  raised :: "'e exn option"

definition objectDetection ::
  "('idx, 'e) fitter \<Rightarrow> (Vec3f list \<Rightarrow> 'idx) \<Rightarrow> Vec3f list list \<Rightarrow> real \<Rightarrow> bool
     \<Rightarrow> TabletopResult list \<Rightarrow> 'e detection" where
  "objectDetection fit build cs confidence_cutoff perform_fit_merge results =
     (case fit_and_merge fit build cs confidence_cutoff perform_fit_merge of
        (cs', Inl e) \<Rightarrow> \<lparr>clusters_out = cs', results_out = results, raised = Some e\<rparr>
      | (cs', Inr (fs, rs)) \<Rightarrow>
          \<lparr>clusters_out = cs',
           results_out = assemble cs' fs rs confidence_cutoff 0 results,
           raised = None\<rparr>)"

section \<open>Basic facts\<close>

text \<open>Below \<open>2^31\<close> the cast \<^verbatim>\<open>(int) i\<close> keeps the index.\<close>

lemma cast_id: "i < 2 ^ 31 \<Longrightarrow> nat (int_cast i mod 2 ^ 64) = i"
  unfolding int_cast_def Let_def by (simp add: nat_mod_distrib)

lemma index_differs_iff: "i < 2 ^ 31 \<Longrightarrow> index_differs m i \<longleftrightarrow> m \<noteq> i"
  using cast_id[of i] by (simp add: index_differs_def)

text \<open>\<^verbatim>\<open>search[i]\<close> is built from the input cluster \<open>i\<close>.\<close>

lemma build_search_nth: "i < length cs \<Longrightarrow> build_search build cs ! i = build (cs ! i)"
  by (simp add: build_search_def)

lemma fitDistance_sqrt:
  "fitDistance m1 m2 =
     sqrt ((pos_x (position (getPose m1)) - pos_x (position (getPose m2))) ^ 2
         + (pos_y (position (getPose m1)) - pos_y (position (getPose m2))) ^ 2)"
  by (simp add: fitDistance_def Let_def power2_eq_square)

lemma fitDistance_less:
  "fitDistance m1 m2 < t \<longleftrightarrow>
     0 < t \<and> (pos_x (position (getPose m1)) - pos_x (position (getPose m2))) ^ 2
           + (pos_y (position (getPose m1)) - pos_y (position (getPose m2))) ^ 2 < t ^ 2"
proof -
  let ?d = "(pos_x (position (getPose m1)) - pos_x (position (getPose m2))) ^ 2
           + (pos_y (position (getPose m1)) - pos_y (position (getPose m2))) ^ 2"
  have d: "0 \<le> ?d" by simp
  show ?thesis
  proof (cases "0 < t")
    case True
    then have "sqrt ?d < t \<longleftrightarrow> sqrt ?d < sqrt (t ^ 2)" by simp
    also have "\<dots> \<longleftrightarrow> ?d < t ^ 2" by (rule real_sqrt_less_iff)
    finally show ?thesis using True by (simp add: fitDistance_sqrt)
  next
    case False
    have "0 \<le> sqrt ?d" using d by simp
    with False have "\<not> sqrt ?d < t" by linarith
    with False show ?thesis by (simp add: fitDistance_sqrt)
  qed
qed

lemma assemble_step:
  "i < length rs \<Longrightarrow>
   assemble cs fs rs cutoff i results =
     assemble cs fs rs cutoff (i + 1)
       (if index_differs (rs ! i) i \<or> fs ! i = []
           \<or> getConfidence (getScore (fs ! i ! 0)) < cutoff then results
        else results @ [\<lparr>pose = getPose (fs ! i ! 0),
                          confidence = getConfidence (getScore (fs ! i ! 0)),
                          object_id = getModelId (fs ! i ! 0), cloud = cs ! i,
                          cloud_index = i\<rparr>])"
  by (subst assemble.simps) (simp add: Let_def)

lemma assemble_done: "\<not> i < length rs \<Longrightarrow> assemble cs fs rs cutoff i results = results"
  by (subst assemble.simps) simp

lemma assemble_filter:
  "assemble cs fs rs cutoff i results =
     results @ map (\<lambda>i. \<lparr>pose = getPose (fs ! i ! 0),
                          confidence = getConfidence (getScore (fs ! i ! 0)),
                          object_id = getModelId (fs ! i ! 0), cloud = cs ! i,
                          cloud_index = i\<rparr>)
       (filter (\<lambda>i. \<not> index_differs (rs ! i) i \<and> fs ! i \<noteq> []
                    \<and> cutoff \<le> getConfidence (getScore (fs ! i ! 0)))
          [i..<length rs])"
proof (induction "length rs - i" arbitrary: i results)
  case 0
  then show ?case by (simp add: assemble_done)
next
  case (Suc d)
  then have i: "i < length rs" and d: "d = length rs - (i + 1)" by auto
  have u: "[i..<length rs] = i # [i + 1..<length rs]"
    using i by (simp add: upt_conv_Cons)
  show ?case
    unfolding assemble_step[OF i] Suc.hyps(1)[OF d] u
    by (simp add: not_less)
qed

lemma assemble_append:
  "assemble cs fs rs cutoff i results = results @ assemble cs fs rs cutoff i []"
proof (induction "length rs - i" arbitrary: i results)
  case 0
  then show ?case by (simp add: assemble_done)
next
  case (Suc d)
  then have i: "i < length rs" and d: "d = length rs - (i + 1)" by auto
  note ih = Suc.hyps(1)[OF d]
  show ?case
  proof (cases "index_differs (rs ! i) i \<or> fs ! i = []
           \<or> getConfidence (getScore (fs ! i ! 0)) < cutoff")
    case True
    then show ?thesis unfolding assemble_step[OF i] using ih[of results] by simp
  next
    case False
    let ?r = "\<lparr>pose = getPose (fs ! i ! 0),
                          confidence = getConfidence (getScore (fs ! i ! 0)),
                          object_id = getModelId (fs ! i ! 0), cloud = cs ! i,
                          cloud_index = i\<rparr>"
    from False have "assemble cs fs rs cutoff i results = assemble cs fs rs cutoff (i + 1) (results @ [?r])"
      unfolding assemble_step[OF i] by simp
    also have "\<dots> = (results @ [?r]) @ assemble cs fs rs cutoff (i + 1) []"
      by (rule ih)
    also have "\<dots> = results @ ([?r] @ assemble cs fs rs cutoff (i + 1) [])" by simp
    also have "[?r] @ assemble cs fs rs cutoff (i + 1) [] = assemble cs fs rs cutoff (i + 1) [?r]"
      by (rule ih[symmetric])
    also have "\<dots> = assemble cs fs rs cutoff i []"
      using False unfolding assemble_step[OF i, of cs fs cutoff "[]"] by simp
    finally show ?thesis .
  qed
qed

section \<open>Invariants of the merge loop\<close>

text \<open>Joining the futures.\<close>

lemma get_all_Inr:
  "get_all xs = Inr rs \<Longrightarrow> length rs = length xs \<and> (\<forall>i<length xs. xs ! i = Inr (rs ! i))"
proof (induction xs arbitrary: rs)
  case Nil
  then show ?case by simp
next
  case (Cons x xs)
  from Cons.prems obtain r rs' where x: "x = Inr r" and g: "get_all xs = Inr rs'" and rs: "rs = r # rs'"
    by (auto split: sum.splits)
  from Cons.IH[OF g] have "length rs' = length xs" "\<forall>i<length xs. xs ! i = Inr (rs' ! i)" by auto
  with x rs show ?case by (auto simp: nth_Cons split: nat.splits)
qed




text \<open>An invariant of the passes holds in the state in which the loop is left.\<close>

lemma merge_loop_invariant:
  assumes "merge_loop fit search cutoff st = (cs', Inr (fs, rs))"
    and "I st"
    and "\<And>s s'. I s \<Longrightarrow> merge_step fit search cutoff s = Advance s' \<Longrightarrow> I s'"
    and "\<And>s j s'. I s \<Longrightarrow> merge_step fit search cutoff s = Merged j s' \<Longrightarrow> I s'"
  shows "\<exists>s. I s \<and> merge_step fit search cutoff s = Exit \<and> clusters s = cs'
           \<and> raw_fit_results s = fs \<and> cluster_model_indices s = rs"
  using assms
proof (induction fit search cutoff st rule: merge_loop.induct)
  case (1 fit search cutoff st)
  show ?case
  proof (cases "merge_step fit search cutoff st")
    case Exit
    with "1.prems"(1) have "clusters st = cs' \<and> raw_fit_results st = fs \<and> cluster_model_indices st = rs"
      by (subst (asm) merge_loop.simps) simp
    with Exit "1.prems"(2) show ?thesis by blast
  next
    case (Advance s')
    with "1.prems"(1) have l: "merge_loop fit search cutoff s' = (cs', Inr (fs, rs))"
      by (subst (asm) merge_loop.simps) simp
    have i: "I s'" by (rule "1.prems"(3)[OF "1.prems"(2) Advance])
    show ?thesis by (rule "1.IH"(1)[OF Advance l i "1.prems"(3,4)])
  next
    case (Merged j s')
    with "1.prems"(1) have l: "merge_loop fit search cutoff s' = (cs', Inr (fs, rs))"
      by (subst (asm) merge_loop.simps) simp
    have i: "I s'" by (rule "1.prems"(4)[OF "1.prems"(2) Merged])
    show ?thesis by (rule "1.IH"(2)[OF Merged l i "1.prems"(3,4)])
  next
    case (Throw e cs)
    with "1.prems"(1) show ?thesis by (subst (asm) merge_loop.simps) simp
  qed
qed


text \<open>What a merging pass has found and done, below \<open>2^31\<close> clusters.\<close>

lemma Merged_facts:
  assumes m: "merge_step fit search cutoff st = Merged j st'"
    and n: "length (clusters st) \<le> 2 ^ 31"
  shows "outer_i st < j" and "j < length (clusters st)"
    and "cluster_model_indices st ! outer_i st = outer_i st"
    and "cluster_model_indices st ! j = j"
    and "outer_i st < length (raw_fit_results st)" and "j < length (raw_fit_results st)"
    and "raw_fit_results st ! outer_i st \<noteq> []" and "raw_fit_results st ! j \<noteq> []"
    and "fitDistance (raw_fit_results st ! outer_i st ! 0) (raw_fit_results st ! j ! 0)
           < fit_merge_threshold"
    and "\<forall>k. outer_i st < k \<and> k < j \<longrightarrow>
           qualifies (raw_fit_results st) (cluster_model_indices st) (outer_i st) k = Some False"
    and "\<exists>new_fit. fit (clusters st ! outer_i st @ clusters st ! j) (max 1 num_models)
          (search ! outer_i st) cutoff = Inr new_fit \<and>
        st' = \<lparr>outer_i = outer_i st,
               clusters = (clusters st)[outer_i st := clusters st ! outer_i st @ clusters st ! j],
               raw_fit_results = (raw_fit_results st)[j := [], outer_i st := new_fit],
               cluster_model_indices = (cluster_model_indices st)[j := outer_i st]\<rparr>"
proof -
  let ?i = "outer_i st" and ?fs = "raw_fit_results st" and ?rs = "cluster_model_indices st"
  note f = merge_step_Merged[OF m]
  from f have i: "?i < length (clusters st)" and di: "\<not> index_differs (?rs ! ?i) ?i"
    and fj: "for_j ?fs ?rs (length (clusters st)) ?i (?i + 1) = Some j"
    and j: "j < length (clusters st)" by blast+
  from for_j_found[OF fj j] have ij: "?i + 1 \<le> j" and q: "qualifies ?fs ?rs ?i j = Some True"
    and before: "\<forall>k. ?i + 1 \<le> k \<and> k < j \<longrightarrow> qualifies ?fs ?rs ?i k = Some False" by blast+
  note qt = qualifies_True[OF q]
  from i n have "?i < 2 ^ 31" by simp
  from di index_differs_iff[OF this] show "?rs ! ?i = ?i" by simp
  from j n have "j < 2 ^ 31" by simp
  from qt index_differs_iff[OF this] show "?rs ! j = j" by simp
  show "?i < j" using ij by simp
  show "j < length (clusters st)" by (rule j)
  show "?i < length ?fs" "j < length ?fs" "?fs ! ?i \<noteq> []" "?fs ! j \<noteq> []"
    "fitDistance (?fs ! ?i ! 0) (?fs ! j ! 0) < fit_merge_threshold" using qt by simp_all
  show "\<forall>k. ?i < k \<and> k < j \<longrightarrow> qualifies ?fs ?rs ?i k = Some False"
    using before by simp
  show "\<exists>new_fit. fit (clusters st ! ?i @ clusters st ! j) (max 1 num_models)
          (search ! ?i) cutoff = Inr new_fit \<and>
        st' = \<lparr>outer_i = ?i,
               clusters = (clusters st)[?i := clusters st ! ?i @ clusters st ! j],
               raw_fit_results = ?fs[j := [], ?i := new_fit],
               cluster_model_indices = ?rs[j := ?i]\<rparr>"
    using f by blast
qed

text \<open>
  The state of the merge loop is well formed: the three vectors have the length of the
  input, and a cluster whose index entry is not its own position points to an earlier
  cluster, not beyond the outer index, that points to itself, and has no fit results.
\<close>

definition merge_inv :: "nat \<Rightarrow> merge_state \<Rightarrow> bool" where
  "merge_inv n st \<longleftrightarrow>
     length (clusters st) = n \<and> length (raw_fit_results st) = n \<and>
     length (cluster_model_indices st) = n \<and> outer_i st \<le> n \<and>
     (\<forall>k<n. cluster_model_indices st ! k \<noteq> k \<longrightarrow>
        cluster_model_indices st ! k < k \<and>
        cluster_model_indices st ! k \<le> outer_i st \<and>
        cluster_model_indices st ! (cluster_model_indices st ! k) = cluster_model_indices st ! k \<and>
        raw_fit_results st ! k = [])"

lemma merge_inv_init:
  "length raw = length cs \<Longrightarrow>
   merge_inv (length cs) \<lparr>outer_i = 0, clusters = cs, raw_fit_results = raw,
      cluster_model_indices = [0..<length cs]\<rparr>"
  by (simp add: merge_inv_def)

lemma merge_inv_Advance:
  "merge_inv n st \<Longrightarrow> merge_step fit search cutoff st = Advance st' \<Longrightarrow> merge_inv n st'"
  by (drule merge_step_Advance) (auto simp: merge_inv_def le_SucI)

lemma merge_inv_Merged:
  assumes inv: "merge_inv n st" and m: "merge_step fit search cutoff st = Merged j st'"
    and n: "n \<le> 2 ^ 31"
  shows "merge_inv n st'"
proof -
  let ?i = "outer_i st" and ?fs = "raw_fit_results st" and ?rs = "cluster_model_indices st"
  from inv have len: "length (clusters st) = n" "length ?fs = n" "length ?rs = n"
    and le: "?i \<le> n"
    by (simp_all add: merge_inv_def)
  from n len have n': "length (clusters st) \<le> 2 ^ 31" by simp
  note f = Merged_facts[OF m n']
  from f(11) obtain new_fit where st': "st' = \<lparr>outer_i = ?i,
               clusters = (clusters st)[?i := clusters st ! ?i @ clusters st ! j],
               raw_fit_results = ?fs[j := [], ?i := new_fit],
               cluster_model_indices = ?rs[j := ?i]\<rparr>" by blast
  have ij: "?i < j" "j < n" "?rs ! ?i = ?i" "?rs ! j = j" using f len by simp_all
  have "?rs[j := ?i] ! k < k \<and> ?rs[j := ?i] ! k \<le> ?i
        \<and> ?rs[j := ?i] ! (?rs[j := ?i] ! k) = ?rs[j := ?i] ! k
        \<and> ?fs[j := [], ?i := new_fit] ! k = []"
    if k: "k < n" and d: "?rs[j := ?i] ! k \<noteq> k" for k
  proof (cases "k = j")
    case True
    then show ?thesis using ij len by simp
  next
    case False
    with d have d': "?rs ! k \<noteq> k" by simp
    with inv k have old: "?rs ! k < k" "?rs ! k \<le> ?i" "?rs ! (?rs ! k) = ?rs ! k" "?fs ! k = []"
      by (simp_all add: merge_inv_def)
    from d' ij have ki: "k \<noteq> ?i" by auto
    from old(2) ij have "?rs ! k \<noteq> j" by simp
    with False old ki show ?thesis by simp
  qed
  with len le show ?thesis unfolding st' merge_inv_def by simp
qed

text \<open>The state in which the fitting and merging part hands over to the last loop.\<close>

lemma merge_step_Exit:
  "merge_step fit search cutoff st = Exit \<longleftrightarrow> \<not> outer_i st < length (clusters st)"
  by (auto simp: merge_step_def Let_def split: option.splits sum.splits)

lemma length_future_results [simp]:
  "length (future_results fit search cs cutoff) = length cs"
  by (simp add: future_results_def)

lemma fit_and_merge_lengths:
  assumes fm: "fit_and_merge fit build cs cutoff pm = (cs', Inr (fs, rs))"
  shows "length cs' = length cs \<and> length fs = length cs \<and> length rs = length cs"
proof -
  let ?search = "build_search build cs"
  from fm obtain raw where raw: "get_all (future_results fit ?search cs cutoff) = Inr raw"
    and r: "(if pm then merge_loop fit ?search cutoff
              \<lparr>outer_i = 0, clusters = cs, raw_fit_results = raw,
               cluster_model_indices = [0..<length cs]\<rparr>
            else (cs, Inr (raw, [0..<length cs]))) = (cs', Inr (fs, rs))"
    by (auto simp: fit_and_merge_def Let_def split: sum.splits)
  from get_all_Inr[OF raw] have len: "length raw = length cs" by simp
  show ?thesis
  proof (cases pm)
    case False
    with r have "cs' = cs" "fs = raw" "rs = [0..<length cs]" by auto
    with len show ?thesis by simp
  next
    case True
    with r have l: "merge_loop fit ?search cutoff
              \<lparr>outer_i = 0, clusters = cs, raw_fit_results = raw,
               cluster_model_indices = [0..<length cs]\<rparr> = (cs', Inr (fs, rs))" by simp
    let ?I = "\<lambda>s. length (clusters s) = length cs \<and> length (raw_fit_results s) = length cs
                \<and> length (cluster_model_indices s) = length cs"
    have "\<exists>s. ?I s \<and> merge_step fit ?search cutoff s = Exit \<and> clusters s = cs'
           \<and> raw_fit_results s = fs \<and> cluster_model_indices s = rs"
    proof (rule merge_loop_invariant[OF l])
      show "?I \<lparr>outer_i = 0, clusters = cs, raw_fit_results = raw,
               cluster_model_indices = [0..<length cs]\<rparr>"
        using len by simp
    next
      fix s s' assume "?I s" "merge_step fit ?search cutoff s = Advance s'"
      then show "?I s'" by (auto dest: merge_step_Advance)
    next
      fix s j s' assume "?I s" "merge_step fit ?search cutoff s = Merged j s'"
      then show "?I s'" by (auto dest!: merge_step_Merged)
    qed
    then show ?thesis by auto
  qed
qed






text \<open>The fitter enters a pass only through its values at one candidate.\<close>

lemma max_num_models: "max 1 num_models = 1"
  by (simp add: num_models_def)

lemma merge_loop_cong:
  "(\<And>s. merge_step fit search cutoff s = merge_step fit' search cutoff s) \<Longrightarrow>
     merge_loop fit search cutoff st = merge_loop fit' search cutoff st"
proof (induction fit search cutoff st rule: merge_loop.induct)
  case (1 fit search cutoff st)
  note eq = "1.prems"
  show ?case
  proof (cases "merge_step fit search cutoff st")
    case Exit
    then show ?thesis
      using eq[of st] by (simp add: merge_loop.simps[of fit] merge_loop.simps[of fit'])
  next
    case (Advance s')
    from "1.IH"(1)[OF Advance eq] Advance show ?thesis
      using eq[of st] by (simp add: merge_loop.simps[of fit _ _ st] merge_loop.simps[of fit' _ _ st])
  next
    case (Merged j s')
    from "1.IH"(2)[OF Merged eq] Merged show ?thesis
      using eq[of st] by (simp add: merge_loop.simps[of fit _ _ st] merge_loop.simps[of fit' _ _ st])
  next
    case (Throw e cs)
    then show ?thesis
      using eq[of st] by (simp add: merge_loop.simps[of fit] merge_loop.simps[of fit'])
  qed
qed

section \<open>The fitter's contract\<close>

text \<open>
  Modelled from the spec: the fitter \<^verbatim>\<open>fitBestModels\<close> is not part of the recognizer's
  source; the spec gives it as \<^verbatim>\<open>fitBestModels(points, maxCandidates, spatialIndex,
  confidenceCutoff)\<close>, returning at most \<^verbatim>\<open>maxCandidates\<close> candidates.
\<close>

definition fitter_bounded :: "('idx, 'e) fitter \<Rightarrow> bool" where
  "fitter_bounded fit \<longleftrightarrow>
     (\<forall>points maxCandidates search cutoff candidates.
        fit points maxCandidates search cutoff = Inr candidates
          \<longrightarrow> length candidates \<le> nat maxCandidates)"

section \<open>The states of the merge loop\<close>

text \<open>
  The states the loop passes through: \<open>run fit search cutoff st0 M st\<close> says that the
  loop started in \<open>st0\<close> reaches \<open>st\<close> after some passes, and that \<open>M\<close> is the set of
  clusters merged away on the way (the inner indices of the merging passes).
\<close>

inductive run ::
  "('idx, 'e) fitter \<Rightarrow> 'idx list \<Rightarrow> real \<Rightarrow> merge_state \<Rightarrow> nat set \<Rightarrow> merge_state \<Rightarrow> bool"
  for fit search cutoff st0 where
  run_start: "run fit search cutoff st0 {} st0"
| run_advance:
    "run fit search cutoff st0 M st \<Longrightarrow> merge_step fit search cutoff st = Advance st'
       \<Longrightarrow> run fit search cutoff st0 M st'"
| run_merged:
    "run fit search cutoff st0 M st \<Longrightarrow> merge_step fit search cutoff st = Merged j st'
       \<Longrightarrow> run fit search cutoff st0 (insert j M) st'"

lemma merge_loop_reaches:
  assumes "merge_loop fit search cutoff st0 = (cs', Inr (fs, rs))"
  shows "\<exists>M st. run fit search cutoff st0 M st \<and> merge_step fit search cutoff st = Exit
           \<and> clusters st = cs' \<and> raw_fit_results st = fs \<and> cluster_model_indices st = rs"
proof -
  have "\<exists>st. (\<exists>M. run fit search cutoff st0 M st) \<and> merge_step fit search cutoff st = Exit
           \<and> clusters st = cs' \<and> raw_fit_results st = fs \<and> cluster_model_indices st = rs"
  proof (rule merge_loop_invariant[OF assms])
    show "\<exists>M. run fit search cutoff st0 M st0" using run_start by blast
  next
    fix s s' assume "\<exists>M. run fit search cutoff st0 M s"
      "merge_step fit search cutoff s = Advance s'"
    then show "\<exists>M. run fit search cutoff st0 M s'" using run_advance by blast
  next
    fix s j s' assume "\<exists>M. run fit search cutoff st0 M s"
      "merge_step fit search cutoff s = Merged j s'"
    then show "\<exists>M. run fit search cutoff st0 M s'" using run_merged by blast
  qed
  then show ?thesis by blast
qed


lemma run_merge_inv:
  "run fit search cutoff st0 M st \<Longrightarrow> merge_inv n st0 \<Longrightarrow> n \<le> 2 ^ 31 \<Longrightarrow> merge_inv n st"
proof (induction rule: run.induct)
  case run_start
  then show ?case by simp
next
  case (run_advance M st st')
  then show ?case using merge_inv_Advance by blast
next
  case (run_merged M st j st')
  then show ?case using merge_inv_Merged by blast
qed

lemma Merged_indices:
  assumes "merge_step fit search cutoff st = Merged j st'" "merge_inv n st" "n \<le> 2 ^ 31"
  shows "cluster_model_indices st' = (cluster_model_indices st)[j := outer_i st]"
    and "outer_i st < j" and "j < n"
    and "cluster_model_indices st ! outer_i st = outer_i st"
    and "cluster_model_indices st ! j = j"
proof -
  from assms(2) have len: "length (clusters st) = n" by (simp add: merge_inv_def)
  with assms(3) have n': "length (clusters st) \<le> 2 ^ 31" by simp
  note f = Merged_facts[OF assms(1) n']
  from f(11) show "cluster_model_indices st' = (cluster_model_indices st)[j := outer_i st]"
    by auto
  from f len show "outer_i st < j" "j < n"
    "cluster_model_indices st ! outer_i st = outer_i st" "cluster_model_indices st ! j = j"
    by simp_all
qed

lemma run_indices_kept:
  "run fit search cutoff st0 M st \<Longrightarrow> merge_inv n st0 \<Longrightarrow> n \<le> 2 ^ 31 \<Longrightarrow>
     k < n \<Longrightarrow> cluster_model_indices st0 ! k \<noteq> k \<Longrightarrow>
     cluster_model_indices st ! k = cluster_model_indices st0 ! k"
proof (induction rule: run.induct)
  case run_start
  then show ?case by simp
next
  case (run_advance M st st')
  then show ?case by (auto dest: merge_step_Advance)
next
  case (run_merged M st j st')
  from run_merge_inv[OF run_merged(1) run_merged.prems(1,2)] have inv: "merge_inv n st" .
  note m = Merged_indices[OF run_merged(2) inv run_merged.prems(2)]
  from run_merged have old: "cluster_model_indices st ! k = cluster_model_indices st0 ! k"
    by simp
  with run_merged.prems(4) m(5) have "k \<noteq> j" by auto
  with m(1) old show ?case by simp
qed

lemma run_merged_set:
  "run fit search cutoff st0 M st \<Longrightarrow> merge_inv n st0 \<Longrightarrow> n \<le> 2 ^ 31 \<Longrightarrow>
     (\<forall>k<n. cluster_model_indices st ! k = k \<longleftrightarrow> cluster_model_indices st0 ! k = k \<and> k \<notin> M)"
proof (induction rule: run.induct)
  case run_start
  then show ?case by simp
next
  case (run_advance M st st')
  then show ?case by (auto dest: merge_step_Advance)
next
  case (run_merged M st j st')
  from run_merge_inv[OF run_merged(1) run_merged.prems(1,2)] have inv: "merge_inv n st" .
  note m = Merged_indices[OF run_merged(2) inv run_merged.prems(2)]
  from inv have len: "length (cluster_model_indices st) = n" by (simp add: merge_inv_def)
  from run_merged have ih:
    "\<forall>k<n. cluster_model_indices st ! k = k \<longleftrightarrow> cluster_model_indices st0 ! k = k \<and> k \<notin> M"
    by simp
  show ?case
  proof (intro allI impI)
    fix k assume k: "k < n"
    show "cluster_model_indices st' ! k = k
        \<longleftrightarrow> cluster_model_indices st0 ! k = k \<and> k \<notin> insert j M"
    proof (cases "k = j")
      case True
      with m len show ?thesis by simp
    next
      case False
      with m(1) ih k show ?thesis by simp
    qed
  qed
qed

section \<open>Two clusters with close first fits\<close>

text \<open>
  Two clusters \<open>a < b\<close> whose first fits are within the threshold, and what the loop
  keeps true about them: a cluster from the outer index on that has its own index and
  has absorbed nothing still has its first fit; and once the outer index has passed
  \<open>a\<close> (or \<open>a\<close> has absorbed a cluster), one of \<open>a\<close>, \<open>b\<close> is merged away or
  \<open>a\<close> has absorbed a cluster between them.
\<close>

lemma qualifies_iff:
  "j < 2 ^ 31 \<Longrightarrow>
     qualifies fs rs i j = Some True \<longleftrightarrow>
       rs ! j = j \<and> j < length fs \<and> fs ! j \<noteq> [] \<and> i < length fs \<and> fs ! i \<noteq> []
       \<and> fitDistance (fs ! i ! 0) (fs ! j ! 0) < fit_merge_threshold"
  using index_differs_iff[of j "rs ! j"]
  by (auto simp: qualifies_def vec_at_def split: option.splits)

lemma for_j_not_found:
  "for_j fs rs n i j0 = Some j \<Longrightarrow> \<not> j < n \<Longrightarrow>
     \<forall>k. j0 \<le> k \<and> k < n \<longrightarrow> qualifies fs rs i k = Some False"
proof (induction fs rs n i j0 rule: for_j.induct)
  case (1 fs rs n i j0)
  show ?case
  proof (cases "j0 < n")
    case False
    then show ?thesis by auto
  next
    case True
    show ?thesis
    proof (cases "qualifies fs rs i j0")
      case None
      with True "1.prems" show ?thesis by (simp add: for_j.simps)
    next
      case (Some b)
      show ?thesis
      proof (cases b)
        case True
        with Some \<open>j0 < n\<close> "1.prems" show ?thesis by (simp add: for_j.simps)
      next
        case False
        with Some \<open>j0 < n\<close> "1.prems" have r: "for_j fs rs n i (j0 + 1) = Some j"
          by (simp add: for_j.simps)
        from "1.IH"[OF \<open>j0 < n\<close> Some False r "1.prems"(2)]
        have ih: "\<forall>k. j0 + 1 \<le> k \<and> k < n \<longrightarrow> qualifies fs rs i k = Some False" .
        show ?thesis
        proof (intro allI impI)
          fix k assume k: "j0 \<le> k \<and> k < n"
          show "qualifies fs rs i k = Some False"
          proof (cases "k = j0")
            case True with Some False show ?thesis by simp
          next
            case False with k ih show ?thesis by simp
          qed
        qed
      qed
    qed
  qed
qed

lemma merge_step_Advance_why:
  assumes "merge_step fit search cutoff st = Advance st'"
    and "length (raw_fit_results st) = length (clusters st)"
  shows "index_differs (cluster_model_indices st ! outer_i st) (outer_i st)
     \<or> raw_fit_results st ! outer_i st = []
     \<or> (\<exists>j. for_j (raw_fit_results st) (cluster_model_indices st) (length (clusters st))
               (outer_i st) (outer_i st + 1) = Some j \<and> \<not> j < length (clusters st))"
  using assms
  by (auto simp: merge_step_def Let_def vec_at_def split: if_splits option.splits sum.splits)

definition close_pair :: "ModelFitInfo list list \<Rightarrow> nat \<Rightarrow> nat \<Rightarrow> nat \<Rightarrow> bool" where
  "close_pair raw n a b \<longleftrightarrow>
     a < b \<and> b < n \<and> raw ! a \<noteq> [] \<and> raw ! b \<noteq> []
     \<and> fitDistance (raw ! a ! 0) (raw ! b ! 0) < fit_merge_threshold"

definition not_both :: "nat list \<Rightarrow> nat \<Rightarrow> nat \<Rightarrow> bool" where
  "not_both rs a b \<longleftrightarrow> rs ! a \<noteq> a \<or> rs ! b \<noteq> b \<or> (\<exists>k. a < k \<and> k < b \<and> rs ! k = a)"

definition untouched :: "nat \<Rightarrow> nat list \<Rightarrow> nat \<Rightarrow> bool" where
  "untouched n rs k \<longleftrightarrow> rs ! k = k \<and> (\<forall>m<n. rs ! m = k \<longrightarrow> m = k)"

definition pair_inv ::
  "ModelFitInfo list list \<Rightarrow> nat \<Rightarrow> nat \<Rightarrow> nat \<Rightarrow> merge_state \<Rightarrow> bool" where
  "pair_inv raw n a b st \<longleftrightarrow>
     (\<forall>k<n. outer_i st \<le> k \<and> untouched n (cluster_model_indices st) k
        \<longrightarrow> raw_fit_results st ! k = raw ! k)
     \<and> (outer_i st < a \<or> not_both (cluster_model_indices st) a b
        \<or> (outer_i st = a \<and> untouched n (cluster_model_indices st) a))"

lemma later_untouched:
  assumes "merge_inv n st" "outer_i st < k" "k < n" "cluster_model_indices st ! k = k"
  shows "untouched n (cluster_model_indices st) k"
  unfolding untouched_def
proof (intro conjI allI impI)
  show "cluster_model_indices st ! k = k" by (rule assms(4))
next
  fix m assume m: "m < n" "cluster_model_indices st ! m = k"
  show "m = k"
  proof (rule ccontr)
    assume "m \<noteq> k"
    with m have "cluster_model_indices st ! m \<noteq> m" by simp
    with assms(1) m(1) have "cluster_model_indices st ! m \<le> outer_i st"
      by (simp add: merge_inv_def)
    with m(2) assms(2) show False by simp
  qed
qed

lemma pair_qualifies:
  assumes inv: "merge_inv n st" and p: "pair_inv raw n a b st" and cp: "close_pair raw n a b"
    and n: "n \<le> 2 ^ 31"
    and oa: "outer_i st = a" and ua: "untouched n (cluster_model_indices st) a"
    and rb: "cluster_model_indices st ! b = b"
  shows "qualifies (raw_fit_results st) (cluster_model_indices st) a b = Some True"
proof -
  from cp have ab: "a < b" "b < n" and ne: "raw ! a \<noteq> []" "raw ! b \<noteq> []"
    and d: "fitDistance (raw ! a ! 0) (raw ! b ! 0) < fit_merge_threshold"
    by (simp_all add: close_pair_def)
  from inv have len: "length (raw_fit_results st) = n" by (simp add: merge_inv_def)
  from p oa ua ab have fa: "raw_fit_results st ! a = raw ! a"
    by (simp add: pair_inv_def)
  have "untouched n (cluster_model_indices st) b"
    using inv oa ab rb by (intro later_untouched) simp_all
  with p oa ab have fb: "raw_fit_results st ! b = raw ! b"
    by (simp add: pair_inv_def)
  from ab n have "b < 2 ^ 31" by simp
  from qualifies_iff[OF this] rb len ab ne d fa fb show ?thesis by simp
qed

lemma not_both_Merged:
  assumes "not_both rs a b" "rs ! j = j"
  shows "not_both (rs[j := i]) a b"
proof -
  from assms(1) consider "rs ! a \<noteq> a" | "rs ! b \<noteq> b" | k where "a < k" "k < b" "rs ! k = a"
    unfolding not_both_def by blast
  then show ?thesis
  proof cases
    case 1
    with assms(2) have "a \<noteq> j" by auto
    with 1 show ?thesis by (simp add: not_both_def)
  next
    case 2
    with assms(2) have "b \<noteq> j" by auto
    with 2 show ?thesis by (simp add: not_both_def)
  next
    case 3
    with assms(2) have "k \<noteq> j" by auto
    with 3 have "rs[j := i] ! k = a" by simp
    with 3 show ?thesis unfolding not_both_def by blast
  qed
qed


lemma pair_inv_Advance:
  assumes inv: "merge_inv n st" and p: "pair_inv raw n a b st" and cp: "close_pair raw n a b"
    and n: "n \<le> 2 ^ 31" and m: "merge_step fit search cutoff st = Advance st'"
  shows "pair_inv raw n a b st'"
proof -
  let ?i = "outer_i st" and ?fs = "raw_fit_results st" and ?rs = "cluster_model_indices st"
  from merge_step_Advance[OF m] have i: "?i < length (clusters st)"
    and st': "st' = st\<lparr>outer_i := ?i + 1\<rparr>" by auto
  from inv have len: "length (clusters st) = n" "length ?fs = n" "length ?rs = n"
    by (simp_all add: merge_inv_def)
  from cp have ab: "a < b" "b < n" and ne: "raw ! a \<noteq> []" by (simp_all add: close_pair_def)
  have fits: "\<forall>k<n. ?i + 1 \<le> k \<and> untouched n ?rs k \<longrightarrow> ?fs ! k = raw ! k"
    using p by (simp add: pair_inv_def)
  from p consider "?i < a" | "not_both ?rs a b" | "?i = a" "untouched n ?rs a"
    unfolding pair_inv_def by blast
  then have "?i + 1 < a \<or> not_both ?rs a b \<or> (?i + 1 = a \<and> untouched n ?rs a)"
  proof cases
    case 1
    show ?thesis
    proof (cases "?i + 1 < a")
      case True
      then show ?thesis by simp
    next
      case False
      with 1 have eq: "?i + 1 = a" by simp
      show ?thesis
      proof (cases "?rs ! a = a")
        case True
        from later_untouched[OF inv 1 _ True] ab have "untouched n ?rs a" by simp
        with eq show ?thesis by simp
      next
        case False
        then show ?thesis by (simp add: not_both_def)
      qed
    qed
  next
    case 2
    then show ?thesis by simp
  next
    case 3
    from 3(2) have ra: "?rs ! a = a" by (simp add: untouched_def)
    from ab n have "a < 2 ^ 31" by simp
    from index_differs_iff[OF this] ra have nd: "\<not> index_differs (?rs ! a) a" by simp
    from p 3 ab have fa: "?fs ! a = raw ! a" by (simp add: pair_inv_def)
    from merge_step_Advance_why[OF m] len 3(1) nd fa ne
    obtain j where j: "for_j ?fs ?rs n a (a + 1) = Some j" "\<not> j < n" by auto
    from for_j_not_found[OF j] ab have qb: "qualifies ?fs ?rs a b = Some False" by simp
    have "?rs ! b \<noteq> b"
    proof
      assume "?rs ! b = b"
      from pair_qualifies[OF inv p cp n 3(1) 3(2) this] qb show False by simp
    qed
    then show ?thesis by (simp add: not_both_def)
  qed
  with fits show ?thesis unfolding st' pair_inv_def by simp
qed

lemma pair_inv_Merged:
  assumes inv: "merge_inv n st" and p: "pair_inv raw n a b st" and cp: "close_pair raw n a b"
    and n: "n \<le> 2 ^ 31" and m: "merge_step fit search cutoff st = Merged j st'"
  shows "pair_inv raw n a b st'"
proof -
  let ?i = "outer_i st" and ?fs = "raw_fit_results st" and ?rs = "cluster_model_indices st"
  from inv have len: "length (clusters st) = n" "length ?fs = n" "length ?rs = n"
    by (simp_all add: merge_inv_def)
  from n len have n': "length (clusters st) \<le> 2 ^ 31" by simp
  note f = Merged_facts[OF m n']
  from f(11) obtain new_fit where st': "st' = \<lparr>outer_i = ?i,
               clusters = (clusters st)[?i := clusters st ! ?i @ clusters st ! j],
               raw_fit_results = ?fs[j := [], ?i := new_fit],
               cluster_model_indices = ?rs[j := ?i]\<rparr>" by blast
  have ij: "?i < j" "j < n" "?rs ! ?i = ?i" "?rs ! j = j" using f len by simp_all
  from cp have ab: "a < b" "b < n" by (simp_all add: close_pair_def)
  have fits: "?fs[j := [], ?i := new_fit] ! k = raw ! k"
    if k: "k < n" "?i \<le> k" and u: "untouched n (?rs[j := ?i]) k" for k
  proof -
    from u have rk: "?rs[j := ?i] ! k = k" by (simp add: untouched_def)
    have "k \<noteq> j"
    proof
      assume "k = j"
      with rk ij len show False by simp
    qed
    moreover have "k \<noteq> ?i"
    proof
      assume "k = ?i"
      with u ij len have "j = ?i" unfolding untouched_def by (metis nth_list_update_eq)
      with ij show False by simp
    qed
    moreover have "untouched n ?rs k"
      unfolding untouched_def
    proof (intro conjI allI impI)
      from rk \<open>k \<noteq> j\<close> show "?rs ! k = k" by simp
    next
      fix l assume l: "l < n" "?rs ! l = k"
      show "l = k"
      proof (cases "l = j")
        case True
        with l ij show ?thesis by simp
      next
        case False
        with l have "?rs[j := ?i] ! l = k" by simp
        with u l(1) show ?thesis by (simp add: untouched_def)
      qed
    qed
    ultimately show ?thesis using p k by (simp add: pair_inv_def)
  qed
  from p consider "?i < a" | "not_both ?rs a b" | "?i = a" "untouched n ?rs a"
    unfolding pair_inv_def by blast
  then have "?i < a \<or> not_both (?rs[j := ?i]) a b"
  proof cases
    case 1
    then show ?thesis by simp
  next
    case 2
    from not_both_Merged[OF 2 ij(4)] show ?thesis by simp
  next
    case 3
    show ?thesis
    proof (cases "?rs ! b = b")
      case False
      then have "not_both ?rs a b" by (simp add: not_both_def)
      from not_both_Merged[OF this ij(4)] show ?thesis by simp
    next
      case True
      from pair_qualifies[OF inv p cp n 3(1) 3(2) True]
      have qb: "qualifies ?fs ?rs a b = Some True" .
      have "\<not> (?i < b \<and> b < j)"
      proof
        assume "?i < b \<and> b < j"
        with f(10) have "qualifies ?fs ?rs ?i b = Some False" by blast
        with qb 3(1) show False by simp
      qed
      with ab 3(1) have jb: "j \<le> b" by simp
      show ?thesis
      proof (cases "j = b")
        case True
        with ij len 3(1) ab have "?rs[j := ?i] ! b \<noteq> b" by simp
        then show ?thesis by (simp add: not_both_def)
      next
        case False
        with jb have "j < b" by simp
        moreover from ij len 3(1) have "?rs[j := ?i] ! j = a" by simp
        moreover from ij 3(1) have "a < j" by simp
        ultimately show ?thesis unfolding not_both_def by blast
      qed
    qed
  qed
  with fits show ?thesis unfolding st' pair_inv_def by auto
qed

lemma pair_inv_init:
  assumes "length raw = length cs" "a < length cs"
  shows "pair_inv raw (length cs) a b \<lparr>outer_i = 0, clusters = cs, raw_fit_results = raw,
      cluster_model_indices = [0..<length cs]\<rparr>"
proof -
  have "untouched (length cs) [0..<length cs] a" if "a = 0"
    using that assms(2) by (simp add: untouched_def)
  then show ?thesis
    unfolding pair_inv_def by (cases "a = 0") auto
qed


section \<open>The spec's wording, for comparison\<close>

text \<open>
  The merge pass as the spec words it, for comparison with the code: after a merge of
  \<open>j\<close> into \<open>i\<close> the inner scan goes on from \<open>j + 1\<close> with the same \<open>i\<close>
  (\<open>j0\<close> is where the inner scan starts); everything else is as in the code.
\<close>

function merge_loop_spec ::
  "('idx, 'e) fitter \<Rightarrow> 'idx list \<Rightarrow> real \<Rightarrow> nat \<Rightarrow> merge_state
     \<Rightarrow> Vec3f list list \<times> ('e exn + ModelFitInfo list list \<times> nat list)" where
  "merge_loop_spec fit search confidence_cutoff j0 st =
     (if \<not> outer_i st < length (clusters st) then
        (clusters st, Inr (raw_fit_results st, cluster_model_indices st))
      else if index_differs (cluster_model_indices st ! outer_i st) (outer_i st)
              \<or> vec_at (raw_fit_results st) (outer_i st) = Some [] then
        merge_loop_spec fit search confidence_cutoff (outer_i st + 2)
          (st\<lparr>outer_i := outer_i st + 1\<rparr>)
      else if vec_at (raw_fit_results st) (outer_i st) = None then
        (clusters st, Inl Out_of_range)
      else
        (case for_j (raw_fit_results st) (cluster_model_indices st) (length (clusters st))
                (outer_i st) j0 of
           None \<Rightarrow> (clusters st, Inl Out_of_range)
         | Some j \<Rightarrow>
             if j < length (clusters st) then
               (case fit (clusters st ! outer_i st @ clusters st ! j) (max 1 num_models)
                       (search ! outer_i st) confidence_cutoff of
                  Inl e \<Rightarrow>
                    ((clusters st)[outer_i st := clusters st ! outer_i st @ clusters st ! j],
                     Inl (Fitter_error e))
                | Inr new_fit \<Rightarrow>
                    merge_loop_spec fit search confidence_cutoff (j + 1)
                      \<lparr>outer_i = outer_i st,
                       clusters = (clusters st)
                         [outer_i st := clusters st ! outer_i st @ clusters st ! j],
                       raw_fit_results = (raw_fit_results st)[j := [], outer_i st := new_fit],
                       cluster_model_indices = (cluster_model_indices st)[j := outer_i st]\<rparr>)
             else
               merge_loop_spec fit search confidence_cutoff (outer_i st + 2)
                 (st\<lparr>outer_i := outer_i st + 1\<rparr>)))"
  by pat_completeness auto
termination
proof (relation "measures [\<lambda>(fit, search, cutoff, j0, st). length (clusters st) - outer_i st,
                           \<lambda>(fit, search, cutoff, j0, st). length (clusters st) - j0]",
       goal_cases)
  case 1
  then show ?case by simp
next
  case (2 fit search cutoff j0 st)
  then show ?case by auto
next
  case (3 fit search cutoff j0 st j new_fit)
  from for_j_found[OF 3(4,5)] 3(5) show ?case by auto
next
  case (4 fit search cutoff j0 st j)
  then show ?case by auto
qed

declare merge_loop_spec.simps [simp del]


section \<open>Scenarios\<close>

text \<open>
  Concrete inputs for the examples below: a fit with a model, a planar position and a
  score; a fitter that answers by the number of points of the cluster it is given
  (up to the number of candidates asked for); the two clusters and the fitter of the
  spec's scenario A (two fragments whose best
  fits are model 5 with score 0.9, 0.01 apart).
\<close>

definition mk_fit :: "int \<Rightarrow> real \<Rightarrow> real \<Rightarrow> real \<Rightarrow> ModelFitInfo" where
  "mk_fit m px py s =
     \<lparr>getModelId = m,
      getPose = \<lparr>position = \<lparr>pos_x = px, pos_y = py, pos_z = 0\<rparr>,
                 orientation = \<lparr>quat_x = 0, quat_y = 0, quat_z = 0, quat_w = 1\<rparr>\<rparr>,
      getScore = s\<rparr>"

definition fit_by_size :: "(nat \<times> ('e + ModelFitInfo list)) list \<Rightarrow> (unit, 'e) fitter" where
  "fit_by_size table points numResults search min_object_score =
     (case map_of table (length points) of
        Some (Inr candidates) \<Rightarrow> Inr (take (nat numResults) candidates)
      | Some (Inl e) \<Rightarrow> Inl e
      | None \<Rightarrow> Inr [])"

definition cluster_A :: "Vec3f list" where
  "cluster_A = [(0, 0, 0)]"

definition cluster_B :: "Vec3f list" where
  "cluster_B = [(1 / 100, 0, 0), (1 / 100, 0, 1 / 100)]"

definition fit_AB :: "(unit, unit) fitter" where
  "fit_AB = fit_by_size
     [(1, Inr [mk_fit 5 0 0 (9 / 10)]),
      (2, Inr [mk_fit 5 (1 / 100) 0 (9 / 10)]),
      (3, Inr [mk_fit 5 (1 / 200) 0 (9 / 10)])]"

lemma fitDistance_threshold:
  "fitDistance m1 m2 < fit_merge_threshold \<longleftrightarrow>
     (pos_x (position (getPose m1)) - pos_x (position (getPose m2)))
         * (pos_x (position (getPose m1)) - pos_x (position (getPose m2)))
       + (pos_y (position (getPose m1)) - pos_y (position (getPose m2)))
         * (pos_y (position (getPose m1)) - pos_y (position (getPose m2))) < 1 / 2500"
  unfolding fitDistance_less by (simp add: fit_merge_threshold_def power2_eq_square)

lemmas run_defs = fit_and_merge_def future_results_def build_search_def
  merge_loop.simps merge_step_def for_j.simps qualifies_def vec_at_def index_differs_def
  int_cast_def getConfidence_def Let_def fitDistance_threshold
  num_models_def fit_by_size_def mk_fit_def



text \<open>
  Three clusters of one, two and three points, and a fitter that puts them at
  \<open>x = 0\<close>, \<open>0.03\<close> and \<open>0.01\<close>, and the merged clusters at \<open>0.02\<close>.
\<close>

definition cluster_C :: "Vec3f list" where
  "cluster_C = [(3 / 100, 0, 0), (3 / 100, 0, 1 / 100), (3 / 100, 1 / 100, 0)]"

definition fit_restart :: "(unit, unit) fitter" where
  "fit_restart = fit_by_size
     [(1, Inr [mk_fit 5 0 0 (9 / 10)]),
      (2, Inr [mk_fit 5 (3 / 100) 0 (9 / 10)]),
      (3, Inr [mk_fit 5 (1 / 100) 0 (9 / 10)]),
      (4, Inr [mk_fit 5 (2 / 100) 0 (9 / 10)]),
      (6, Inr [mk_fit 5 (2 / 100) 0 (9 / 10)])]"

definition restart_state :: merge_state where
  "restart_state =
     \<lparr>outer_i = 0, clusters = [cluster_A, cluster_B, cluster_C],
      raw_fit_results = [[mk_fit 5 0 0 (9 / 10)], [mk_fit 5 (3 / 100) 0 (9 / 10)],
                         [mk_fit 5 (1 / 100) 0 (9 / 10)]],
      cluster_model_indices = [0, 1, 2]\<rparr>"

text \<open>
  A cluster of four points, and a fitter that puts clusters of one, two and four points
  at \<open>x = 0\<close>, \<open>0.01\<close> and \<open>0.015\<close>, and the merged cluster of three points at
  \<open>-0.05\<close>.
\<close>

definition cluster_D :: "Vec3f list" where
  "cluster_D = [(3 / 200, 0, 0), (3 / 200, 0, 1 / 100), (3 / 200, 1 / 100, 0),
                (3 / 200, 1 / 100, 1 / 100)]"

definition fit_apart :: "(unit, unit) fitter" where
  "fit_apart = fit_by_size
     [(1, Inr [mk_fit 5 0 0 (9 / 10)]),
      (2, Inr [mk_fit 5 (1 / 100) 0 (9 / 10)]),
      (4, Inr [mk_fit 5 (3 / 200) 0 (9 / 10)]),
      (3, Inr [mk_fit 5 (- 5 / 100) 0 (9 / 10)])]"

lemma fitter_bounded_fit_by_size: "fitter_bounded (fit_by_size table)"
  by (auto simp: fitter_bounded_def fit_by_size_def split: option.splits sum.splits)

section \<open>The confidence transform\<close>

text \<open>
  Claim C4. The confidence computed from a raw score \<open>s\<close> is \<open>1 - (1 - s)\<^sup>2\<close>; it is
  \<open>0\<close> at \<open>0\<close> and \<open>1\<close> at \<open>1\<close>, it is increasing on \<open>[0, 1]\<close> (weakly, and
  over the reals also strictly), and it maps \<open>[0, 1]\<close> into \<open>[0, 1]\<close>.
\<close>

theorem getConfidence_transform:
  "getConfidence s = 1 - (1 - s) ^ 2 \<and> getConfidence 0 = 0 \<and> getConfidence 1 = 1
   \<and> (0 \<le> s \<and> s \<le> t \<and> t \<le> 1 \<longrightarrow> getConfidence s \<le> getConfidence t)
   \<and> (0 \<le> s \<and> s < t \<and> t \<le> 1 \<longrightarrow> getConfidence s < getConfidence t)
   \<and> (0 \<le> s \<and> s \<le> 1 \<longrightarrow> 0 \<le> getConfidence s \<and> getConfidence s \<le> 1)"
proof -
  have a: "getConfidence s = 1 - (1 - s) ^ 2"
    by (simp add: getConfidence_def power2_eq_square)
  have m: "getConfidence s \<le> getConfidence t" if "0 \<le> s" "s \<le> t" "t \<le> 1"
  proof -
    have "(1 - t) * (1 - t) \<le> (1 - s) * (1 - s)"
      using that by (intro mult_mono) auto
    then show ?thesis by (simp add: getConfidence_def)
  qed
  have sm: "getConfidence s < getConfidence t" if "0 \<le> s" "s < t" "t \<le> 1"
  proof -
    have "(1 - t) * (1 - t) < (1 - s) * (1 - s)"
      using that by (intro mult_strict_mono') auto
    then show ?thesis by (simp add: getConfidence_def)
  qed
  have r: "0 \<le> getConfidence s \<and> getConfidence s \<le> 1" if "0 \<le> s" "s \<le> 1"
  proof -
    have "(1 - s) * (1 - s) \<le> 1 * 1"
      using that by (intro mult_mono) auto
    moreover have "0 \<le> (1 - s) * (1 - s)" by simp
    ultimately show ?thesis by (simp add: getConfidence_def)
  qed
  show ?thesis using a m sm r by (simp add: getConfidence_def)
qed

theorem getConfidence_transform_witness:
  "(0 :: real) \<le> 3 / 10 \<and> (3 / 10 :: real) < 1 / 2 \<and> (1 / 2 :: real) \<le> 1
   \<and> getConfidence (3 / 10) = 51 / 100 \<and> getConfidence (3 / 10) < getConfidence (1 / 2)
   \<and> 0 \<le> getConfidence (3 / 10) \<and> getConfidence (3 / 10) \<le> 1"
  using getConfidence_transform [of "3 / 10" "1 / 2"] by (simp add: power2_eq_square)


section \<open>The results of a call\<close>



text \<open>
  Claim C7. Without merging, the call leaves the caller's clusters as they were,
  whether it returns or raises.
\<close>

theorem no_merge_keeps_clusters:
  "clusters_out (objectDetection fit build cs cutoff False results) = cs"
  by (simp add: objectDetection_def fit_and_merge_def Let_def split: sum.splits prod.splits)

theorem no_merge_keeps_clusters_witness:
  "clusters_out (objectDetection fit_AB (\<lambda>c. ()) [cluster_A, cluster_B] (1 / 2) False [])
     = [cluster_A, cluster_B]"
  by (rule no_merge_keeps_clusters)


text \<open>
  Claim C10. The call only appends to \<open>results\<close>: what was there stays in front,
  what is appended does not depend on it, and the vector can only be empty afterwards
  if it was empty before.
\<close>

theorem results_only_appended:
  "results_out (objectDetection fit build cs cutoff perform_fit_merge results)
     = results @ results_out (objectDetection fit build cs cutoff perform_fit_merge [])
   \<and> (results_out (objectDetection fit build cs cutoff perform_fit_merge results) = []
        \<longrightarrow> results = [])"
proof -
  have "results_out (objectDetection fit build cs cutoff perform_fit_merge results)
     = results @ results_out (objectDetection fit build cs cutoff perform_fit_merge [])"
    unfolding objectDetection_def
    by (auto split: prod.splits sum.splits intro: assemble_append)
  then show ?thesis by (metis append_is_Nil_conv)
qed


theorem results_only_appended_witness:
  "results_out (objectDetection fit_AB (\<lambda>c. ()) [cluster_A, cluster_B] (1 / 2) True
       [\<lparr>pose = getPose (mk_fit 7 1 1 1), confidence = 1, object_id = 7, cloud = [],
         cloud_index = 3\<rparr>])
     = [\<lparr>pose = getPose (mk_fit 7 1 1 1), confidence = 1, object_id = 7, cloud = [],
         cloud_index = 3\<rparr>,
        \<lparr>pose = getPose (mk_fit 5 (1 / 200) 0 (9 / 10)), confidence = 99 / 100,
           object_id = 5, cloud = cluster_A @ cluster_B, cloud_index = 0\<rparr>]"
proof -
  have "results_out (objectDetection fit_AB (\<lambda>c. ()) [cluster_A, cluster_B] (1 / 2) True [])
     = [\<lparr>pose = getPose (mk_fit 5 (1 / 200) 0 (9 / 10)), confidence = 99 / 100,
           object_id = 5, cloud = cluster_A @ cluster_B, cloud_index = 0\<rparr>]"
    by (simp add: objectDetection_def run_defs assemble.simps fit_AB_def cluster_A_def
        cluster_B_def)
  with results_only_appended[of fit_AB "\<lambda>c. ()" "[cluster_A, cluster_B]" "1 / 2" True
      "[\<lparr>pose = getPose (mk_fit 7 1 1 1), confidence = 1, object_id = 7, cloud = [],
         cloud_index = 3\<rparr>]"]
  show ?thesis by simp
qed

section \<open>The merge decision\<close>

text \<open>
  Claim C6. The distance between two fits is the Euclidean distance of the \<open>x\<close> and
  \<open>y\<close> coordinates of their pose positions; \<open>z\<close> and the orientation do not enter.
  The threshold is 0.02. Below \<open>2^31\<close>, the inner loop stops at \<open>j\<close> exactly when
  the index entry of \<open>j\<close> is \<open>j\<close>, the fit results of \<open>j\<close> (and of \<open>i\<close>) are not
  empty and the distance of their first candidates is strictly below the threshold; and
  a merging pass has merged the first such \<open>j\<close> after \<open>i\<close>.
\<close>

theorem merge_decision:
  "fitDistance m1 m2 =
     sqrt ((pos_x (position (getPose m1)) - pos_x (position (getPose m2))) ^ 2
         + (pos_y (position (getPose m1)) - pos_y (position (getPose m2))) ^ 2)
   \<and> fitDistance
        (m1\<lparr>getPose := \<lparr>position = (position (getPose m1))\<lparr>pos_z := z\<rparr>,
                          orientation = q\<rparr>\<rparr>) m2 = fitDistance m1 m2
   \<and> fitDistance m1
        (m2\<lparr>getPose := \<lparr>position = (position (getPose m2))\<lparr>pos_z := z\<rparr>,
                          orientation = q\<rparr>\<rparr>) = fitDistance m1 m2
   \<and> fit_merge_threshold = 2 / 100
   \<and> (j < 2 ^ 31 \<longrightarrow>
        (qualifies fs rs i j = Some True \<longleftrightarrow>
           rs ! j = j \<and> j < length fs \<and> fs ! j \<noteq> [] \<and> i < length fs \<and> fs ! i \<noteq> []
           \<and> sqrt ((pos_x (position (getPose (fs ! i ! 0)))
                     - pos_x (position (getPose (fs ! j ! 0)))) ^ 2
                  + (pos_y (position (getPose (fs ! i ! 0)))
                     - pos_y (position (getPose (fs ! j ! 0)))) ^ 2) < 2 / 100))
   \<and> (merge_step fit search cutoff st = Merged j' st' \<longrightarrow>
        qualifies (raw_fit_results st) (cluster_model_indices st) (outer_i st) j' = Some True
        \<and> (\<forall>k. outer_i st < k \<and> k < j' \<longrightarrow>
              qualifies (raw_fit_results st) (cluster_model_indices st) (outer_i st) k
                = Some False))"
proof -
  have q: "qualifies fs rs i j = Some True \<longleftrightarrow>
           rs ! j = j \<and> j < length fs \<and> fs ! j \<noteq> [] \<and> i < length fs \<and> fs ! i \<noteq> []
           \<and> fitDistance (fs ! i ! 0) (fs ! j ! 0) < fit_merge_threshold" if "j < 2 ^ 31"
    using index_differs_iff[OF that, of "rs ! j"]
    by (auto simp: qualifies_def vec_at_def split: option.splits)
  have m: "qualifies (raw_fit_results st) (cluster_model_indices st) (outer_i st) j' = Some True
        \<and> (\<forall>k. outer_i st < k \<and> k < j' \<longrightarrow>
              qualifies (raw_fit_results st) (cluster_model_indices st) (outer_i st) k
                = Some False)"
    if s: "merge_step fit search cutoff st = Merged j' st'"
  proof -
    from merge_step_Merged[OF s] have
      f: "for_j (raw_fit_results st) (cluster_model_indices st) (length (clusters st))
            (outer_i st) (outer_i st + 1) = Some j'" and j: "j' < length (clusters st)"
      by blast+
    from for_j_found[OF f j] show ?thesis by simp
  qed
  show ?thesis
    using q m by (simp add: fitDistance_sqrt fit_merge_threshold_def)
qed

theorem merge_decision_witness:
  "(1 :: nat) < 2 ^ 31
   \<and> qualifies [[mk_fit 5 0 0 (9 / 10)], [mk_fit 5 (1 / 100) 0 (9 / 10)]] [0, 1] 0 1 = Some True
   \<and> merge_step fit_AB [(), ()] (1 / 2)
        \<lparr>outer_i = 0, clusters = [cluster_A, cluster_B],
         raw_fit_results = [[mk_fit 5 0 0 (9 / 10)], [mk_fit 5 (1 / 100) 0 (9 / 10)]],
         cluster_model_indices = [0, 1]\<rparr>
       = Merged 1 \<lparr>outer_i = 0, clusters = [cluster_A @ cluster_B, cluster_B],
           raw_fit_results = [[mk_fit 5 (1 / 200) 0 (9 / 10)], []],
           cluster_model_indices = [0, 0]\<rparr>
   \<and> sqrt ((pos_x (position (getPose (mk_fit 5 0 0 (9 / 10))))
              - pos_x (position (getPose (mk_fit 5 (1 / 100) 0 (9 / 10))))) ^ 2
           + (pos_y (position (getPose (mk_fit 5 0 0 (9 / 10))))
              - pos_y (position (getPose (mk_fit 5 (1 / 100) 0 (9 / 10))))) ^ 2) < 2 / 100"
proof -
  let ?fs = "[[mk_fit 5 0 0 (9 / 10)], [mk_fit 5 (1 / 100) 0 (9 / 10)]]"
  let ?st = "\<lparr>outer_i = 0, clusters = [cluster_A, cluster_B], raw_fit_results = ?fs,
         cluster_model_indices = [0, 1]\<rparr>"
  have q: "qualifies ?fs [0, 1] 0 1 = Some True"
    by (simp add: run_defs)
  have s: "merge_step fit_AB [(), ()] (1 / 2) ?st
       = Merged 1 \<lparr>outer_i = 0, clusters = [cluster_A @ cluster_B, cluster_B],
           raw_fit_results = [[mk_fit 5 (1 / 200) 0 (9 / 10)], []],
           cluster_model_indices = [0, 0]\<rparr>"
    by (simp add: run_defs fit_AB_def cluster_A_def cluster_B_def)
  have b: "(1 :: nat) < 2 ^ 31" by simp
  from merge_decision[of "mk_fit 5 0 0 (9 / 10)" "mk_fit 5 (1 / 100) 0 (9 / 10)" 0
      "orientation (getPose (mk_fit 5 0 0 1))" 1 ?fs "[0, 1]" 0 fit_AB "[(), ()]" "1 / 2" ?st 1
      "\<lparr>outer_i = 0, clusters = [cluster_A @ cluster_B, cluster_B],
           raw_fit_results = [[mk_fit 5 (1 / 200) 0 (9 / 10)], []],
           cluster_model_indices = [0, 0]\<rparr>"] q s b
  show ?thesis by simp
qed

section \<open>The number of candidates\<close>

text \<open>
  Claim C9. Every fitter call of \<^verbatim>\<open>objectDetection\<close>, in the dispatch and in the
  refit, asks for \<^verbatim>\<open>std::max(1, num_models)\<close> candidates, which is 1: the call is
  the same for any fitter that agrees with the given one at one candidate, and the entry
  point has no parameter for the number. With a fitter that returns at most the number
  of candidates asked for, every fit result list the last loop reads has at most one
  element.
\<close>

theorem one_candidate_per_cluster:
  "objectDetection fit build cs cutoff perform_fit_merge results
     = objectDetection (\<lambda>points numResults. fit points 1) build cs cutoff perform_fit_merge results
   \<and> (fitter_bounded fit \<longrightarrow>
        (\<forall>cs' fs rs. fit_and_merge fit build cs cutoff perform_fit_merge = (cs', Inr (fs, rs))
           \<longrightarrow> (\<forall>l\<in>set fs. length l \<le> 1)))"
proof -
  let ?fit1 = "\<lambda>points (numResults :: int). fit points 1"
  let ?search = "build_search build cs"
  have fr: "future_results fit ?search cs cutoff = future_results ?fit1 ?search cs cutoff"
    by (simp add: future_results_def max_num_models)
  have st: "merge_step fit ?search cutoff s = merge_step ?fit1 ?search cutoff s" for s
    unfolding merge_step_def max_num_models by (rule refl)
  have ml: "merge_loop fit ?search cutoff s = merge_loop ?fit1 ?search cutoff s" for s
    by (rule merge_loop_cong) (rule st)
  have "fit_and_merge fit build cs cutoff perform_fit_merge
      = fit_and_merge ?fit1 build cs cutoff perform_fit_merge"
    unfolding fit_and_merge_def Let_def fr ml by (rule refl)
  then have a: "objectDetection fit build cs cutoff perform_fit_merge results
     = objectDetection ?fit1 build cs cutoff perform_fit_merge results"
    by (simp add: objectDetection_def)
  have b: "\<forall>l\<in>set fs. length l \<le> 1"
    if bd: "fitter_bounded fit"
      and fm: "fit_and_merge fit build cs cutoff perform_fit_merge = (cs', Inr (fs, rs))"
    for cs' fs rs
  proof -
    have one: "length l \<le> 1" if "fit p (max 1 num_models) s c = Inr l" for p s c l
      using bd that unfolding fitter_bounded_def num_models_def by fastforce
    from fm obtain raw where raw: "get_all (future_results fit ?search cs cutoff) = Inr raw"
      and r: "(if perform_fit_merge then merge_loop fit ?search cutoff
                \<lparr>outer_i = 0, clusters = cs, raw_fit_results = raw,
                 cluster_model_indices = [0..<length cs]\<rparr>
              else (cs, Inr (raw, [0..<length cs]))) = (cs', Inr (fs, rs))"
      by (auto simp: fit_and_merge_def Let_def split: sum.splits)
    from get_all_Inr[OF raw] have len: "length raw = length cs"
      and nth: "\<forall>i<length cs. future_results fit ?search cs cutoff ! i = Inr (raw ! i)"
      by simp_all
    have raw1: "\<forall>l\<in>set raw. length l \<le> 1"
    proof
      fix l assume "l \<in> set raw"
      then obtain i where i: "i < length raw" "raw ! i = l" by (auto simp: in_set_conv_nth)
      with nth len have "fit (cs ! i) (max 1 num_models) (?search ! i) cutoff = Inr l"
        by (simp add: future_results_def)
      then show "length l \<le> 1" by (rule one)
    qed
    show ?thesis
    proof (cases perform_fit_merge)
      case False
      with r have "fs = raw" by auto
      with raw1 show ?thesis by simp
    next
      case True
      with r have l: "merge_loop fit ?search cutoff
                \<lparr>outer_i = 0, clusters = cs, raw_fit_results = raw,
                 cluster_model_indices = [0..<length cs]\<rparr> = (cs', Inr (fs, rs))" by simp
      have "\<exists>s. (\<forall>l\<in>set (raw_fit_results s). length l \<le> 1)
            \<and> merge_step fit ?search cutoff s = Exit \<and> clusters s = cs'
            \<and> raw_fit_results s = fs \<and> cluster_model_indices s = rs"
      proof (rule merge_loop_invariant[OF l])
        show "\<forall>l\<in>set (raw_fit_results \<lparr>outer_i = 0, clusters = cs, raw_fit_results = raw,
                 cluster_model_indices = [0..<length cs]\<rparr>). length l \<le> 1"
          using raw1 by simp
      next
        fix s s' assume "\<forall>l\<in>set (raw_fit_results s). length l \<le> 1"
          "merge_step fit ?search cutoff s = Advance s'"
        then show "\<forall>l\<in>set (raw_fit_results s'). length l \<le> 1"
          by (auto dest: merge_step_Advance)
      next
        fix s j s' assume i: "\<forall>l\<in>set (raw_fit_results s). length l \<le> 1"
          and m: "merge_step fit ?search cutoff s = Merged j s'"
        from merge_step_Merged[OF m] obtain new_fit where
          n: "fit (clusters s ! outer_i s @ clusters s ! j) (max 1 num_models)
                (?search ! outer_i s) cutoff = Inr new_fit"
          and s': "raw_fit_results s' = (raw_fit_results s)[j := [], outer_i s := new_fit]"
          by auto
        from one[OF n] have "length new_fit \<le> 1" .
        with i show "\<forall>l\<in>set (raw_fit_results s'). length l \<le> 1"
          unfolding s' by (auto dest!: set_update_subset_insert[THEN subsetD])
      qed
      then show ?thesis by blast
    qed
  qed
  from a b show ?thesis by blast
qed

theorem one_candidate_per_cluster_witness:
  "fitter_bounded fit_AB
   \<and> fit_and_merge fit_AB (\<lambda>c. ()) [cluster_A, cluster_B] (1 / 2) True
      = ([cluster_A @ cluster_B, cluster_B],
         Inr ([[mk_fit 5 (1 / 200) 0 (9 / 10)], []], [0, 0]))
   \<and> length [mk_fit 5 (1 / 200) 0 (9 / 10)] \<le> 1 \<and> length ([] :: ModelFitInfo list) \<le> 1"
proof -
  have bd: "fitter_bounded fit_AB"
    unfolding fit_AB_def by (rule fitter_bounded_fit_by_size)
  have fm: "fit_and_merge fit_AB (\<lambda>c. ()) [cluster_A, cluster_B] (1 / 2) True
      = ([cluster_A @ cluster_B, cluster_B],
         Inr ([[mk_fit 5 (1 / 200) 0 (9 / 10)], []], [0, 0]))"
    by (simp add: run_defs fit_AB_def cluster_A_def cluster_B_def)
  from one_candidate_per_cluster[of fit_AB "\<lambda>c. ()" "[cluster_A, cluster_B]" "1 / 2" True "[]"]
    bd fm
  have "\<forall>l\<in>set [[mk_fit 5 (1 / 200) 0 (9 / 10)], []]. length l \<le> 1" by blast
  with bd fm show ?thesis by simp
qed


section \<open>Fitter failures\<close>





section \<open>One merging pass\<close>

text \<open>
  Claim C2, as stated, fails in its last part: after a merge the code starts the next
  pass of the \<^verbatim>\<open>while\<close> loop, whose inner loop begins again at \<open>i + 1\<close>, not at
  \<open>j + 1\<close>. In the scenario, cluster 2 is merged into cluster 0 first (cluster 1 is
  0.03 away); the refit moves cluster 0 to 0.02, and the next pass merges cluster 1,
  which a scan continued from \<open>j + 1 = 3\<close> leaves alone.
\<close>

theorem inner_scan_continues_counterexample:
  "merge_step fit_restart [(), (), ()] (1 / 2) restart_state
     = Merged 2 \<lparr>outer_i = 0,
         clusters = [cluster_A @ cluster_C, cluster_B, cluster_C],
         raw_fit_results = [[mk_fit 5 (2 / 100) 0 (9 / 10)],
                            [mk_fit 5 (3 / 100) 0 (9 / 10)], []],
         cluster_model_indices = [0, 1, 0]\<rparr>
   \<and> merge_step fit_restart [(), (), ()] (1 / 2)
       \<lparr>outer_i = 0,
         clusters = [cluster_A @ cluster_C, cluster_B, cluster_C],
         raw_fit_results = [[mk_fit 5 (2 / 100) 0 (9 / 10)],
                            [mk_fit 5 (3 / 100) 0 (9 / 10)], []],
         cluster_model_indices = [0, 1, 0]\<rparr>
     = Merged 1 \<lparr>outer_i = 0,
         clusters = [(cluster_A @ cluster_C) @ cluster_B, cluster_B, cluster_C],
         raw_fit_results = [[mk_fit 5 (2 / 100) 0 (9 / 10)], [], []],
         cluster_model_indices = [0, 0, 0]\<rparr>
   \<and> merge_loop fit_restart [(), (), ()] (1 / 2) restart_state
     = ([(cluster_A @ cluster_C) @ cluster_B, cluster_B, cluster_C],
        Inr ([[mk_fit 5 (2 / 100) 0 (9 / 10)], [], []], [0, 0, 0]))
   \<and> merge_loop_spec fit_restart [(), (), ()] (1 / 2) 1 restart_state
     = ([cluster_A @ cluster_C, cluster_B, cluster_C],
        Inr ([[mk_fit 5 (2 / 100) 0 (9 / 10)], [mk_fit 5 (3 / 100) 0 (9 / 10)], []],
             [0, 1, 0]))
   \<and> merge_loop fit_restart [(), (), ()] (1 / 2) restart_state
     \<noteq> merge_loop_spec fit_restart [(), (), ()] (1 / 2) 1 restart_state"
  by (simp add: run_defs merge_loop_spec.simps fit_restart_def restart_state_def
      cluster_A_def cluster_B_def cluster_C_def)


text \<open>
  Claim C2, amended. When the inner loop of a pass for \<open>i\<close> stops at \<open>j\<close>, the
  pass appends the points of cluster \<open>j\<close> to cluster \<open>i\<close>, clears the fit results of
  \<open>j\<close>, sets the index entry of \<open>j\<close> to \<open>i\<close> and refits the enlarged cluster
  \<open>i\<close> with \<^verbatim>\<open>search[i]\<close>, which is never rebuilt (an exception of the refit
  leaves the loop). The loop then goes on with the same \<open>i\<close>: if the refit is empty
  the next pass advances \<open>i\<close>, and a next merge for \<open>i\<close> is found by an inner loop
  that starts again at \<open>i + 1\<close>.
\<close>

theorem merge_pass_restarts:
  assumes i: "outer_i st < length (clusters st)"
    and ri: "\<not> index_differs (cluster_model_indices st ! outer_i st) (outer_i st)"
    and fi: "outer_i st < length (raw_fit_results st)" "raw_fit_results st ! outer_i st \<noteq> []"
    and fj: "for_j (raw_fit_results st) (cluster_model_indices st) (length (clusters st))
               (outer_i st) (outer_i st + 1) = Some j"
    and j: "j < length (clusters st)"
    and st': "st' = (\<lambda>new_fit.
        \<lparr>outer_i = outer_i st,
         clusters = (clusters st)[outer_i st := clusters st ! outer_i st @ clusters st ! j],
         raw_fit_results = (raw_fit_results st)[j := [], outer_i st := new_fit],
         cluster_model_indices = (cluster_model_indices st)[j := outer_i st]\<rparr>)"
  shows "merge_step fit search cutoff st =
           (case fit (clusters st ! outer_i st @ clusters st ! j) (max 1 num_models)
                   (search ! outer_i st) cutoff of
              Inl e \<Rightarrow> Throw (Fitter_error e)
                  ((clusters st)[outer_i st := clusters st ! outer_i st @ clusters st ! j])
            | Inr new_fit \<Rightarrow> Merged j (st' new_fit))
         \<and> (\<forall>new_fit. fit (clusters st ! outer_i st @ clusters st ! j) (max 1 num_models)
                   (search ! outer_i st) cutoff = Inr new_fit \<longrightarrow>
              merge_loop fit search cutoff st = merge_loop fit search cutoff (st' new_fit)
              \<and> (new_fit = [] \<longrightarrow>
                   merge_step fit search cutoff (st' new_fit)
                     = Advance ((st' new_fit)\<lparr>outer_i := outer_i st + 1\<rparr>))
              \<and> (\<forall>j2 st2. merge_step fit search cutoff (st' new_fit) = Merged j2 st2 \<longrightarrow>
                   for_j (raw_fit_results (st' new_fit)) (cluster_model_indices (st' new_fit))
                     (length (clusters st)) (outer_i st) (outer_i st + 1) = Some j2))"
proof -
  let ?i = "outer_i st"
  from for_j_found[OF fj j] have ij: "?i < j" by simp
  have step: "merge_step fit search cutoff st =
           (case fit (clusters st ! ?i @ clusters st ! j) (max 1 num_models)
                   (search ! ?i) cutoff of
              Inl e \<Rightarrow> Throw (Fitter_error e)
                  ((clusters st)[?i := clusters st ! ?i @ clusters st ! j])
            | Inr new_fit \<Rightarrow> Merged j (st' new_fit))"
    using i ri fi fj j unfolding merge_step_def st'
    by (simp add: Let_def vec_at_def split: sum.splits)
  have rest: "merge_loop fit search cutoff st = merge_loop fit search cutoff (st' new_fit)
              \<and> (new_fit = [] \<longrightarrow>
                   merge_step fit search cutoff (st' new_fit)
                     = Advance ((st' new_fit)\<lparr>outer_i := ?i + 1\<rparr>))
              \<and> (\<forall>j2 st2. merge_step fit search cutoff (st' new_fit) = Merged j2 st2 \<longrightarrow>
                   for_j (raw_fit_results (st' new_fit)) (cluster_model_indices (st' new_fit))
                     (length (clusters st)) ?i (?i + 1) = Some j2)"
    if n: "fit (clusters st ! ?i @ clusters st ! j) (max 1 num_models) (search ! ?i) cutoff
            = Inr new_fit" for new_fit
  proof (intro conjI impI allI)
    from step n have m: "merge_step fit search cutoff st = Merged j (st' new_fit)" by simp
    then show "merge_loop fit search cutoff st = merge_loop fit search cutoff (st' new_fit)"
      by (subst merge_loop.simps) simp
  next
    assume "new_fit = []"
    then show "merge_step fit search cutoff (st' new_fit)
                     = Advance ((st' new_fit)\<lparr>outer_i := ?i + 1\<rparr>)"
      using i ri fi ij unfolding merge_step_def st'
      by (simp add: Let_def vec_at_def)
  next
    fix j2 st2
    assume "merge_step fit search cutoff (st' new_fit) = Merged j2 st2"
    from merge_step_Merged[OF this]
    show "for_j (raw_fit_results (st' new_fit)) (cluster_model_indices (st' new_fit))
                     (length (clusters st)) ?i (?i + 1) = Some j2"
      unfolding st' by simp
  qed
  from step rest show ?thesis by blast
qed

theorem merge_pass_restarts_witness:
  "outer_i restart_state < length (clusters restart_state)
   \<and> outer_i restart_state < length (raw_fit_results restart_state)
   \<and> for_j (raw_fit_results restart_state) (cluster_model_indices restart_state)
        (length (clusters restart_state)) (outer_i restart_state) (outer_i restart_state + 1)
       = Some 2
   \<and> (2 :: nat) < length (clusters restart_state)
   \<and> merge_step fit_restart [(), (), ()] (1 / 2) restart_state
       = Merged 2 \<lparr>outer_i = 0,
           clusters = [cluster_A @ cluster_C, cluster_B, cluster_C],
           raw_fit_results = [[mk_fit 5 (2 / 100) 0 (9 / 10)],
                              [mk_fit 5 (3 / 100) 0 (9 / 10)], []],
           cluster_model_indices = [0, 1, 0]\<rparr>
   \<and> merge_loop fit_restart [(), (), ()] (1 / 2) restart_state
       = merge_loop fit_restart [(), (), ()] (1 / 2)
          \<lparr>outer_i = 0,
           clusters = [cluster_A @ cluster_C, cluster_B, cluster_C],
           raw_fit_results = [[mk_fit 5 (2 / 100) 0 (9 / 10)],
                              [mk_fit 5 (3 / 100) 0 (9 / 10)], []],
           cluster_model_indices = [0, 1, 0]\<rparr>"
proof -
  have i: "outer_i restart_state < length (clusters restart_state)"
    by (simp add: restart_state_def)
  have ri: "\<not> index_differs (cluster_model_indices restart_state ! outer_i restart_state)
              (outer_i restart_state)"
    by (simp add: restart_state_def index_differs_def int_cast_def)
  have fi: "outer_i restart_state < length (raw_fit_results restart_state)"
    "raw_fit_results restart_state ! outer_i restart_state \<noteq> []"
    by (simp_all add: restart_state_def)
  have fj: "for_j (raw_fit_results restart_state) (cluster_model_indices restart_state)
        (length (clusters restart_state)) (outer_i restart_state) (outer_i restart_state + 1)
       = Some 2"
    by (simp add: run_defs restart_state_def)
  have j: "(2 :: nat) < length (clusters restart_state)"
    by (simp add: restart_state_def)
  have f: "fit_restart (clusters restart_state ! outer_i restart_state @ clusters restart_state ! 2)
       (max 1 num_models) ([(), (), ()] ! outer_i restart_state) (1 / 2)
     = Inr [mk_fit 5 (2 / 100) 0 (9 / 10)]"
    by (simp add: fit_restart_def restart_state_def cluster_A_def cluster_B_def cluster_C_def
        fit_by_size_def num_models_def)
  have eq: "\<lparr>outer_i = outer_i restart_state,
         clusters = (clusters restart_state)[outer_i restart_state :=
            clusters restart_state ! outer_i restart_state @ clusters restart_state ! 2],
         raw_fit_results = (raw_fit_results restart_state)
            [2 := [], outer_i restart_state := [mk_fit 5 (2 / 100) 0 (9 / 10)]],
         cluster_model_indices = (cluster_model_indices restart_state)
            [2 := outer_i restart_state]\<rparr>
      = \<lparr>outer_i = 0,
           clusters = [cluster_A @ cluster_C, cluster_B, cluster_C],
           raw_fit_results = [[mk_fit 5 (2 / 100) 0 (9 / 10)],
                              [mk_fit 5 (3 / 100) 0 (9 / 10)], []],
           cluster_model_indices = [0, 1, 0]\<rparr>"
    by (simp add: restart_state_def)
  from merge_pass_restarts[OF i ri fi fj j refl, of fit_restart "[(), (), ()]" "1 / 2"]
  have "merge_step fit_restart [(), (), ()] (1 / 2) restart_state
       = Merged 2 \<lparr>outer_i = outer_i restart_state,
         clusters = (clusters restart_state)[outer_i restart_state :=
            clusters restart_state ! outer_i restart_state @ clusters restart_state ! 2],
         raw_fit_results = (raw_fit_results restart_state)
            [2 := [], outer_i restart_state := [mk_fit 5 (2 / 100) 0 (9 / 10)]],
         cluster_model_indices = (cluster_model_indices restart_state)
            [2 := outer_i restart_state]\<rparr>
     \<and> merge_loop fit_restart [(), (), ()] (1 / 2) restart_state
       = merge_loop fit_restart [(), (), ()] (1 / 2)
          \<lparr>outer_i = outer_i restart_state,
         clusters = (clusters restart_state)[outer_i restart_state :=
            clusters restart_state ! outer_i restart_state @ clusters restart_state ! 2],
         raw_fit_results = (raw_fit_results restart_state)
            [2 := [], outer_i restart_state := [mk_fit 5 (2 / 100) 0 (9 / 10)]],
         cluster_model_indices = (cluster_model_indices restart_state)
            [2 := outer_i restart_state]\<rparr>"
    unfolding f by simp
  then have "merge_step fit_restart [(), (), ()] (1 / 2) restart_state
       = Merged 2 \<lparr>outer_i = 0,
           clusters = [cluster_A @ cluster_C, cluster_B, cluster_C],
           raw_fit_results = [[mk_fit 5 (2 / 100) 0 (9 / 10)],
                              [mk_fit 5 (3 / 100) 0 (9 / 10)], []],
           cluster_model_indices = [0, 1, 0]\<rparr>
     \<and> merge_loop fit_restart [(), (), ()] (1 / 2) restart_state
       = merge_loop fit_restart [(), (), ()] (1 / 2)
          \<lparr>outer_i = 0,
           clusters = [cluster_A @ cluster_C, cluster_B, cluster_C],
           raw_fit_results = [[mk_fit 5 (2 / 100) 0 (9 / 10)],
                              [mk_fit 5 (3 / 100) 0 (9 / 10)], []],
           cluster_model_indices = [0, 1, 0]\<rparr>"
    unfolding eq .
  with i fi(1) fj j show ?thesis by blast
qed


section \<open>The cluster indices during the merge loop\<close>

text \<open>
  Claim C8. For a call with at most \<open>2^31\<close> clusters, in every state the merge loop
  passes through: the index entry of a cluster is its own position exactly when the
  cluster has not been merged away; every entry points to a cluster that points to
  itself (one hop); a merging pass merges a cluster \<open>j\<close> that still has its own index,
  and has not been merged before, into the outer cluster, which still has its own index;
  and an entry that is not its own position stays as it is in every later state. (The
  state in which the loop is left is one of these states: \<open>merge_loop_reaches\<close>.)
\<close>

theorem representative_invariant:
  assumes n: "length cs \<le> 2 ^ 31" and len: "length raw = length cs"
    and r: "run fit search cutoff
              \<lparr>outer_i = 0, clusters = cs, raw_fit_results = raw,
               cluster_model_indices = [0..<length cs]\<rparr> M st"
  shows "(\<forall>k<length cs. cluster_model_indices st ! k = k \<longleftrightarrow> k \<notin> M)
     \<and> (\<forall>k<length cs. cluster_model_indices st ! k \<le> k
           \<and> cluster_model_indices st ! (cluster_model_indices st ! k)
               = cluster_model_indices st ! k)
     \<and> (\<forall>j st'. merge_step fit search cutoff st = Merged j st' \<longrightarrow>
           cluster_model_indices st ! outer_i st = outer_i st
           \<and> cluster_model_indices st ! j = j \<and> j \<notin> M \<and> outer_i st < j
           \<and> cluster_model_indices st' = (cluster_model_indices st)[j := outer_i st])
     \<and> (\<forall>M' st' k. run fit search cutoff st M' st' \<and> k < length cs
           \<and> cluster_model_indices st ! k \<noteq> k \<longrightarrow>
           cluster_model_indices st' ! k = cluster_model_indices st ! k)"
proof -
  let ?st0 = "\<lparr>outer_i = 0, clusters = cs, raw_fit_results = raw,
               cluster_model_indices = [0..<length cs]\<rparr>"
  let ?rs = "cluster_model_indices st"
  have inv0: "merge_inv (length cs) ?st0" by (rule merge_inv_init[OF len])
  from run_merge_inv[OF r inv0 n] have inv: "merge_inv (length cs) st" .
  from run_merged_set[OF r inv0 n]
  have a: "\<forall>k<length cs. ?rs ! k = k \<longleftrightarrow> k \<notin> M" by simp
  have b: "?rs ! k \<le> k \<and> ?rs ! (?rs ! k) = ?rs ! k" if "k < length cs" for k
    using inv that unfolding merge_inv_def by (cases "?rs ! k = k") auto
  have c: "?rs ! outer_i st = outer_i st \<and> ?rs ! j = j \<and> j \<notin> M \<and> outer_i st < j
           \<and> cluster_model_indices st' = ?rs[j := outer_i st]"
    if m: "merge_step fit search cutoff st = Merged j st'" for j st'
  proof -
    note f = Merged_indices[OF m inv n]
    from a f(3,5) have "j \<notin> M" by simp
    with f show ?thesis by simp
  qed
  have d: "cluster_model_indices st' ! k = ?rs ! k"
    if "run fit search cutoff st M' st'" "k < length cs" "?rs ! k \<noteq> k" for M' st' k
    using run_indices_kept[OF that(1) inv n that(2,3)] .
  from a b c d show ?thesis by blast
qed

theorem representative_invariant_witness:
  "length [cluster_A, cluster_B, cluster_C] \<le> 2 ^ 31
   \<and> run fit_restart [(), (), ()] (1 / 2)
        \<lparr>outer_i = 0, clusters = [cluster_A, cluster_B, cluster_C],
         raw_fit_results = [[mk_fit 5 0 0 (9 / 10)], [mk_fit 5 (3 / 100) 0 (9 / 10)],
                            [mk_fit 5 (1 / 100) 0 (9 / 10)]],
         cluster_model_indices = [0..<length [cluster_A, cluster_B, cluster_C]]\<rparr>
        {2}
        \<lparr>outer_i = 0, clusters = [cluster_A @ cluster_C, cluster_B, cluster_C],
         raw_fit_results = [[mk_fit 5 (2 / 100) 0 (9 / 10)],
                            [mk_fit 5 (3 / 100) 0 (9 / 10)], []],
         cluster_model_indices = [0, 1, 0]\<rparr>
   \<and> [0, 1, 0 :: nat] ! 1 = 1 \<and> (1 :: nat) \<notin> {2}
   \<and> [0, 1, 0 :: nat] ! ([0, 1, 0] ! 2) = [0, 1, 0] ! 2"
proof -
  let ?cs = "[cluster_A, cluster_B, cluster_C]"
  let ?raw = "[[mk_fit 5 0 0 (9 / 10)], [mk_fit 5 (3 / 100) 0 (9 / 10)],
                            [mk_fit 5 (1 / 100) 0 (9 / 10)]]"
  let ?st0 = "\<lparr>outer_i = 0, clusters = ?cs, raw_fit_results = ?raw,
         cluster_model_indices = [0..<length ?cs]\<rparr>"
  let ?st1 = "\<lparr>outer_i = 0, clusters = [cluster_A @ cluster_C, cluster_B, cluster_C],
         raw_fit_results = [[mk_fit 5 (2 / 100) 0 (9 / 10)],
                            [mk_fit 5 (3 / 100) 0 (9 / 10)], []],
         cluster_model_indices = [0, 1, 0]\<rparr>"
  have n: "length ?cs \<le> 2 ^ 31" by simp
  have len: "length ?raw = length ?cs" by simp
  have s: "merge_step fit_restart [(), (), ()] (1 / 2) ?st0 = Merged 2 ?st1"
    by (simp add: run_defs fit_restart_def cluster_A_def cluster_B_def cluster_C_def)
  have "run fit_restart [(), (), ()] (1 / 2) ?st0 (insert 2 {}) ?st1"
    by (rule run_merged[OF run_start s])
  then have r: "run fit_restart [(), (), ()] (1 / 2) ?st0 {2} ?st1" by simp
  from representative_invariant[OF n len r]
  have "cluster_model_indices ?st1 ! 1 = 1 \<longleftrightarrow> (1 :: nat) \<notin> {2}"
    and "cluster_model_indices ?st1 ! (cluster_model_indices ?st1 ! 2)
       = cluster_model_indices ?st1 ! 2"
    by simp_all
  with n r show ?thesis by simp
qed

section \<open>Clusters with close fits\<close>

text \<open>
  Claim C5, as stated, fails: cluster 0 first absorbs cluster 1, the refit moves it
  away, and cluster 2, whose first fit was within the threshold of the first fit of
  cluster 0, stays separate; both 0 and 2 are in the output.
\<close>

theorem close_fits_both_output_counterexample:
  "get_all (future_results fit_apart (build_search (\<lambda>c. ()) [cluster_A, cluster_B, cluster_D])
       [cluster_A, cluster_B, cluster_D] (1 / 2))
     = Inr [[mk_fit 5 0 0 (9 / 10)], [mk_fit 5 (1 / 100) 0 (9 / 10)],
            [mk_fit 5 (3 / 200) 0 (9 / 10)]]
   \<and> fitDistance (mk_fit 5 0 0 (9 / 10)) (mk_fit 5 (3 / 200) 0 (9 / 10)) < fit_merge_threshold
   \<and> results_out (objectDetection fit_apart (\<lambda>c. ()) [cluster_A, cluster_B, cluster_D]
        (1 / 2) True [])
     = [\<lparr>pose = getPose (mk_fit 5 (- 5 / 100) 0 (9 / 10)), confidence = 99 / 100,
         object_id = 5, cloud = cluster_A @ cluster_B, cloud_index = 0\<rparr>,
        \<lparr>pose = getPose (mk_fit 5 (3 / 200) 0 (9 / 10)), confidence = 99 / 100,
         object_id = 5, cloud = cluster_D, cloud_index = 2\<rparr>]"
  by (simp add: objectDetection_def run_defs assemble.simps fit_apart_def cluster_A_def
      cluster_B_def cluster_D_def)

text \<open>
  Claim C5, amended. For a call with merging and at most \<open>2^31\<close> clusters that
  returns: if the first fits of clusters \<open>a < b\<close> are within the threshold, then
  \<open>a\<close> or \<open>b\<close> has been merged away, or \<open>a\<close> has absorbed a cluster between them
  (and has been refitted); so the output has entries for both only in the last case.
\<close>

theorem close_fits_not_both:
  assumes n: "length cs \<le> 2 ^ 31"
    and raw: "get_all (future_results fit (build_search build cs) cs cutoff) = Inr raw"
    and ab: "a < b" "b < length cs"
    and ne: "raw ! a \<noteq> []" "raw ! b \<noteq> []"
    and d: "fitDistance (raw ! a ! 0) (raw ! b ! 0) < fit_merge_threshold"
    and fm: "fit_and_merge fit build cs cutoff True = (cs', Inr (fs, rs))"
    and new: "new = drop (length results)
                (results_out (objectDetection fit build cs cutoff True results))"
  shows "(rs ! a \<noteq> a \<or> rs ! b \<noteq> b \<or> (\<exists>k. a < k \<and> k < b \<and> rs ! k = a))
     \<and> ((\<exists>r\<in>set new. cloud_index r = a) \<and> (\<exists>r\<in>set new. cloud_index r = b)
          \<longrightarrow> (\<exists>k. a < k \<and> k < b \<and> rs ! k = a))"
proof -
  let ?n = "length cs" and ?search = "build_search build cs"
  let ?st0 = "\<lparr>outer_i = 0, clusters = cs, raw_fit_results = raw,
               cluster_model_indices = [0..<length cs]\<rparr>"
  from get_all_Inr[OF raw] have len: "length raw = ?n" by simp
  from ab ne d have cp: "close_pair raw ?n a b" by (simp add: close_pair_def)
  from fm raw have l: "merge_loop fit ?search cutoff ?st0 = (cs', Inr (fs, rs))"
    by (simp add: fit_and_merge_def Let_def)
  let ?I = "\<lambda>s. merge_inv ?n s \<and> pair_inv raw ?n a b s"
  have "\<exists>s. ?I s \<and> merge_step fit ?search cutoff s = Exit \<and> clusters s = cs'
           \<and> raw_fit_results s = fs \<and> cluster_model_indices s = rs"
  proof (rule merge_loop_invariant[OF l])
    from ab have "a < ?n" by simp
    with merge_inv_init[OF len] pair_inv_init[OF len] show "?I ?st0" by simp
  next
    fix s s' assume "?I s" and m: "merge_step fit ?search cutoff s = Advance s'"
    then show "?I s'"
      using merge_inv_Advance[OF _ m] pair_inv_Advance[OF _ _ cp n m] by simp
  next
    fix s j s' assume "?I s" and m: "merge_step fit ?search cutoff s = Merged j s'"
    then show "?I s'"
      using merge_inv_Merged[OF _ m n] pair_inv_Merged[OF _ _ cp n m] by simp
  qed
  then obtain s where s: "merge_inv ?n s" "pair_inv raw ?n a b s"
    "merge_step fit ?search cutoff s = Exit" "cluster_model_indices s = rs" by blast
  from s(1,3) have "outer_i s = ?n" by (simp add: merge_step_Exit merge_inv_def)
  with s(2) ab have "not_both (cluster_model_indices s) a b"
    by (simp add: pair_inv_def)
  with s(4) have nb: "rs ! a \<noteq> a \<or> rs ! b \<noteq> b \<or> (\<exists>k. a < k \<and> k < b \<and> rs ! k = a)"
    by (simp add: not_both_def)
  from fit_and_merge_lengths[OF fm] have lrs: "length rs = ?n" by simp
  have out: "rs ! i = i" if "r \<in> set new" "cloud_index r = i" for r i
  proof -
    from that have "i < ?n \<and> \<not> index_differs (rs ! i) i"
      unfolding new objectDetection_def fm
      by (auto simp: assemble_filter lrs)
    moreover from this n have "i < 2 ^ 31" by simp
    ultimately show ?thesis using index_differs_iff by blast
  qed
  from nb out show ?thesis by blast
qed


theorem close_fits_not_both_witness:
  "length [cluster_A, cluster_B] \<le> 2 ^ 31
   \<and> get_all (future_results fit_AB (build_search (\<lambda>c. ()) [cluster_A, cluster_B])
         [cluster_A, cluster_B] (1 / 2))
       = Inr [[mk_fit 5 0 0 (9 / 10)], [mk_fit 5 (1 / 100) 0 (9 / 10)]]
   \<and> (0 :: nat) < 1 \<and> 1 < length [cluster_A, cluster_B]
   \<and> fitDistance (mk_fit 5 0 0 (9 / 10)) (mk_fit 5 (1 / 100) 0 (9 / 10)) < fit_merge_threshold
   \<and> fit_and_merge fit_AB (\<lambda>c. ()) [cluster_A, cluster_B] (1 / 2) True
       = ([cluster_A @ cluster_B, cluster_B],
          Inr ([[mk_fit 5 (1 / 200) 0 (9 / 10)], []], [0, 0]))
   \<and> [0, 0 :: nat] ! 1 \<noteq> 1"
proof -
  let ?cs = "[cluster_A, cluster_B]"
  let ?raw = "[[mk_fit 5 0 0 (9 / 10)], [mk_fit 5 (1 / 100) 0 (9 / 10)]]"
  have n: "length ?cs \<le> 2 ^ 31" by simp
  have raw: "get_all (future_results fit_AB (build_search (\<lambda>c. ()) ?cs) ?cs (1 / 2)) = Inr ?raw"
    by (simp add: run_defs fit_AB_def cluster_A_def cluster_B_def)
  have ab: "(0 :: nat) < 1" "1 < length ?cs" by simp_all
  have ne: "?raw ! 0 \<noteq> []" "?raw ! 1 \<noteq> []" by simp_all
  have d: "fitDistance (?raw ! 0 ! 0) (?raw ! 1 ! 0) < fit_merge_threshold"
    by (simp add: fitDistance_threshold mk_fit_def)
  have fm: "fit_and_merge fit_AB (\<lambda>c. ()) ?cs (1 / 2) True
       = ([cluster_A @ cluster_B, cluster_B],
          Inr ([[mk_fit 5 (1 / 200) 0 (9 / 10)], []], [0, 0]))"
    by (simp add: run_defs fit_AB_def cluster_A_def cluster_B_def)
  from close_fits_not_both[OF n raw ab ne d fm refl, of "[]"]
  have "[0, 0 :: nat] ! 1 \<noteq> 1" by simp
  with n raw ab d fm show ?thesis by simp
qed


end
